theory Spec2Isabelle
  imports
    Main
    "HOL-Library.AList"
    "HOL-Library.Char_ord"
    "HOL-Library.List_Lexorder"
    "HOL-Library.Product_Lexorder"
begin

section \<open>Python values, dictionaries and exceptions\<close>

text \<open>
  The script \<^verbatim>\<open>fplData.py\<close> stores two kinds of Python value in its table cells: a
  \<^verbatim>\<open>str\<close> (a name, a flag, or the sentinel \<^verbatim>\<open>'-'\<close>) and an \<^verbatim>\<open>int\<close> (a gameweek or a
  point total).  Python strings compare by code point; the UTF-8 bytes of \<^typ>\<open>string\<close>
  compare the same way under the lexicographic order on lists of characters.
\<close>

datatype cell = S string | I int

definition dash :: cell where
  "dash = S ''-''"

text \<open>The two exceptions that the subscripting in the script can raise.\<close>

datatype error = KeyError | IndexError

text \<open>
  A Python \<^verbatim>\<open>dict\<close> keeps its keys in insertion order, and assigning to a key that is
  already present keeps the key's position.  An association list updated with
  \<^const>\<open>AList.update\<close> behaves the same way.
\<close>

type_synonym ('k, 'v) dict = "('k \<times> 'v) list"

definition dict_set :: "('k, 'v) dict \<Rightarrow> 'k \<Rightarrow> 'v \<Rightarrow> ('k, 'v) dict" where
  "dict_set d k v = AList.update k v d"

text \<open>\<^verbatim>\<open>d.get(k)\<close>: the value, or \<^verbatim>\<open>None\<close>.\<close>

definition dict_get :: "('k, 'v) dict \<Rightarrow> 'k \<Rightarrow> 'v option" where
  "dict_get d k = map_of d k"

text \<open>\<^verbatim>\<open>d[k]\<close>: the value, or \<^verbatim>\<open>KeyError\<close>.\<close>

definition dict_index :: "('k, 'v) dict \<Rightarrow> 'k \<Rightarrow> error + 'v" where
  "dict_index d k = (case map_of d k of None \<Rightarrow> Inl KeyError | Some v \<Rightarrow> Inr v)"

text \<open>\<^verbatim>\<open>k in d\<close>.\<close>

definition dict_mem :: "'k \<Rightarrow> ('k, 'v) dict \<Rightarrow> bool" where
  "dict_mem k d = (map_of d k \<noteq> None)"

text \<open>\<^verbatim>\<open>list(d.keys())\<close>.\<close>

definition dict_keys :: "('k, 'v) dict \<Rightarrow> 'k list" where
  "dict_keys d = map fst d"

text \<open>
  \<^verbatim>\<open>xs[i]\<close> on a Python list: a negative index counts from the end, anything out of
  range raises \<^verbatim>\<open>IndexError\<close>.
\<close>

definition list_index :: "'a list \<Rightarrow> int \<Rightarrow> error + 'a" where
  "list_index xs i =
     (if 0 \<le> i \<and> i < int (length xs) then Inr (xs ! nat i)
      else if i < 0 \<and> - int (length xs) \<le> i then Inr (xs ! nat (int (length xs) + i))
      else Inl IndexError)"

text \<open>
  The test \<^verbatim>\<open>if v:\<close> on a value that is \<^verbatim>\<open>None\<close> or an integer: both \<^verbatim>\<open>None\<close> and \<^verbatim>\<open>0\<close>
  are false.  The result is the integer when the test passes.
\<close>

definition if_truthy :: "int option \<Rightarrow> int option" where
  "if_truthy v = (case v of None \<Rightarrow> None | Some n \<Rightarrow> if n = 0 then None else Some n)"

text \<open>Sequencing of two computations that may raise.\<close>

definition bind_err :: "error + 'a \<Rightarrow> ('a \<Rightarrow> error + 'b) \<Rightarrow> error + 'b" where
  "bind_err m f = (case m of Inl e \<Rightarrow> Inl e | Inr x \<Rightarrow> f x)"

text \<open>
  A \<^verbatim>\<open>for\<close> loop whose body updates the accumulated state or raises; an exception in
  the body ends the loop (and the run, since the script catches nothing).
\<close>

fun for_loop :: "('a \<Rightarrow> 's \<Rightarrow> error + 's) \<Rightarrow> 'a list \<Rightarrow> 's \<Rightarrow> error + 's" where
  "for_loop body [] st = Inr st"
| "for_loop body (x # xs) st =
     (case body x st of Inl e \<Rightarrow> Inl e | Inr st' \<Rightarrow> for_loop body xs st')"


section \<open>The responses of the data provider\<close>

text \<open>
  Each JSON object is a record of the fields the script reads.  The keys that the script
  itself treats as optional (\<^verbatim>\<open>"chips"\<close> and \<^verbatim>\<open>'picks'\<close>, read with \<^verbatim>\<open>.get\<close>) are optional
  here too.  The provider is a function of the request: the same URL gives the same
  response throughout a run.
\<close>

record standing =
  entry :: int
  player_name :: string
  entry_name :: string

record element =
  id_el :: int
  web_name :: string
  team :: int
  element_type :: int

text \<open>
  \<^verbatim>\<open>bootstrap['teams']\<close> and \<^verbatim>\<open>bootstrap['element_types']\<close> are kept as the lists of their
  \<^verbatim>\<open>'name'\<close> and \<^verbatim>\<open>'singular_name'\<close> fields, the only fields read.
\<close>

record bootstrap_static =
  elements :: "element list"
  teams :: "string list"
  positions :: "string list"

record chip =
  name :: string
  event :: int

record pick =
  element_pk :: int
  is_captain :: bool

text \<open>An element of the live scores: \<^verbatim>\<open>p['id']\<close> and \<^verbatim>\<open>p['stats']['total_points']\<close>.\<close>

record live_element =
  id_lv :: int
  total_points :: int

record transfer =
  element_in :: int
  element_out :: int
  event_tr :: int

record 'a response =
  status_code :: int
  json :: 'a

record api =
  league_standings :: "standing list"
  bootstrap :: bootstrap_static
  history :: "int \<Rightarrow> chip list option response"
  picks_of :: "int \<Rightarrow> int \<Rightarrow> pick list option response"
  live :: "int \<Rightarrow> live_element list response"
  transfers_of :: "int \<Rightarrow> transfer list response"


section \<open>Reference data (lines 10 to 32)\<close>

record entry_info =
  manager_name :: string
  team_name :: string

definition entry_map_of :: "standing list \<Rightarrow> (int, entry_info) dict" where
  "entry_map_of results =
     foldl (\<lambda>m s. dict_set m (entry s)
                     \<lparr>manager_name = player_name s, team_name = entry_name s\<rparr>)
           [] results"

text \<open>
  A dictionary comprehension \<^verbatim>\<open>{e['id']: f(e) for e in elements}\<close> whose value
  expression may raise.
\<close>

fun dict_comp :: "(element \<Rightarrow> error + string) \<Rightarrow> element list \<Rightarrow> (int, string) dict
                  \<Rightarrow> error + (int, string) dict" where
  "dict_comp f [] d = Inr d"
| "dict_comp f (e # es) d =
     (case f e of Inl err \<Rightarrow> Inl err | Inr v \<Rightarrow> dict_comp f es (dict_set d (id_el e) v))"

record catalog =
  id_to_name :: "(int, string) dict"
  id_to_team :: "(int, string) dict"
  id_to_position :: "(int, string) dict"

definition load_catalog :: "bootstrap_static \<Rightarrow> error + catalog" where
  "load_catalog b =
     (case dict_comp (\<lambda>e. Inr (web_name e)) (elements b) [] of
        Inl err \<Rightarrow> Inl err
      | Inr names \<Rightarrow>
     (case dict_comp (\<lambda>e. list_index (teams b) (team e - 1)) (elements b) [] of
        Inl err \<Rightarrow> Inl err
      | Inr tms \<Rightarrow>
     (case dict_comp (\<lambda>e. list_index (positions b) (element_type e - 1)) (elements b) [] of
        Inl err \<Rightarrow> Inl err
      | Inr poss \<Rightarrow>
          Inr \<lparr>id_to_name = names, id_to_team = tms, id_to_position = poss\<rparr>)))"


section \<open>Step 1: chip usage (lines 34 to 100)\<close>

record chip_record =
  Manager_Name :: string
  Team_Name :: string
  Wildcard_1 :: cell
  Wildcard_2 :: cell
  Free_Hit :: cell
  Bench_Boost :: cell
  Triple_Captain :: cell
  Triple_Captain_Player :: cell
  TC_Points :: cell

text \<open>
  The state of the loop over one entry's chips: \<^verbatim>\<open>chip_dict\<close>, \<^verbatim>\<open>free_hit_week\<close> and
  \<^verbatim>\<open>triple_captain_week\<close>.
\<close>

type_synonym chip_state = "chip_record \<times> int option \<times> int option"

fun chip_step :: "chip_state \<Rightarrow> chip \<Rightarrow> chip_state" where
  "chip_step (chip_dict, free_hit_week, triple_captain_week) c =
     (let gw = event c in
      if name c = ''wildcard'' then
        (if gw \<le> 20 then (chip_dict\<lparr>Wildcard_1 := I gw\<rparr>, free_hit_week, triple_captain_week)
         else (chip_dict\<lparr>Wildcard_2 := I gw\<rparr>, free_hit_week, triple_captain_week))
      else if name c = ''freehit'' then
        (chip_dict\<lparr>Free_Hit := I gw\<rparr>, Some gw, triple_captain_week)
      else if name c = ''3xc'' then
        (chip_dict\<lparr>Triple_Captain := I gw\<rparr>, free_hit_week, Some gw)
      else if name c = ''bboost'' then
        (chip_dict\<lparr>Bench_Boost := I gw\<rparr>, free_hit_week, triple_captain_week)
      else (chip_dict, free_hit_week, triple_captain_week))"

definition initial_chip_dict :: "entry_info \<Rightarrow> chip_record" where
  "initial_chip_dict info =
     \<lparr>Manager_Name = manager_name info, Team_Name = team_name info,
      Wildcard_1 = dash, Wildcard_2 = dash, Free_Hit = dash, Bench_Boost = dash,
      Triple_Captain = dash, Triple_Captain_Player = dash, TC_Points = dash\<rparr>"

text \<open>
  \<^verbatim>\<open>next((p['element'] for p in picks if p['is_captain']), None)\<close>: the element of the
  first pick flagged as captain.
\<close>

definition first_captain :: "pick list \<Rightarrow> int option" where
  "first_captain ps =
     (case filter is_captain ps of [] \<Rightarrow> None | p # _ \<Rightarrow> Some (element_pk p))"

text \<open>\<^verbatim>\<open>{p['id']: p['stats']['total_points'] for p in live_resp.json()['elements']}\<close>\<close>

definition points_map :: "live_element list \<Rightarrow> (int, int) dict" where
  "points_map els = foldl (\<lambda>m p. dict_set m (id_lv p) (total_points p)) [] els"

text \<open>\<^verbatim>\<open>id_to_name.get(captain_id, '-')\<close>\<close>

definition name_or_dash :: "(int, string) dict \<Rightarrow> int \<Rightarrow> string" where
  "name_or_dash names i = (case dict_get names i of None \<Rightarrow> ''-'' | Some n \<Rightarrow> n)"

text \<open>\<^verbatim>\<open>player_stats.get(captain_id, '-')\<close>\<close>

definition points_or_dash :: "(int, int) dict \<Rightarrow> int \<Rightarrow> cell" where
  "points_or_dash pts i = (case dict_get pts i of None \<Rightarrow> dash | Some p \<Rightarrow> I p)"

text \<open>
  Lines 81 to 95: the triple-captain player and points.  \<^verbatim>\<open>picks_resp.json()['picks']\<close>
  is a direct subscript, so a body without that key raises.
\<close>

definition resolve_triple_captain ::
  "api \<Rightarrow> (int, string) dict \<Rightarrow> int \<Rightarrow> int option \<Rightarrow> chip_record \<Rightarrow> error + chip_record" where
  "resolve_triple_captain a names entry_id triple_captain_week chip_dict =
     (case if_truthy triple_captain_week of
        None \<Rightarrow> Inr chip_dict
      | Some w \<Rightarrow>
          let picks_resp = picks_of a entry_id w; live_resp = live a w in
          if status_code picks_resp = 200 \<and> status_code live_resp = 200 then
            (case json picks_resp of
               None \<Rightarrow> Inl KeyError
             | Some ps \<Rightarrow>
                 (case if_truthy (first_captain ps) of
                    None \<Rightarrow> Inr chip_dict
                  | Some captain_id \<Rightarrow>
                      Inr (chip_dict
                            \<lparr>Triple_Captain_Player := S (name_or_dash names captain_id),
                             TC_Points := points_or_dash (points_map (json live_resp))
                                            captain_id\<rparr>)))
          else Inr chip_dict)"

text \<open>
  The body of the loop over the entries, up to the three values it stores: lines 44 to 76
  scan the chips, lines 81 to 95 resolve the triple captain.
\<close>

definition scan_chips :: "api \<Rightarrow> entry_info \<Rightarrow> int \<Rightarrow> chip_state" where
  "scan_chips a info entry_id =
     (let resp = history a entry_id in
      if status_code resp = 200 then
        foldl chip_step (initial_chip_dict info, None, None)
          (case json resp of None \<Rightarrow> [] | Some chips \<Rightarrow> chips)
      else (initial_chip_dict info, None, None))"

definition chip_entry ::
  "api \<Rightarrow> (int, string) dict \<Rightarrow> (int, entry_info) dict \<Rightarrow> int \<Rightarrow> error + chip_state" where
  "chip_entry a names entry_map entry_id =
     bind_err (dict_index entry_map entry_id) (\<lambda>info.
       case scan_chips a info entry_id of
         (chip_dict, free_hit_week, triple_captain_week) \<Rightarrow>
           bind_err (resolve_triple_captain a names entry_id triple_captain_week chip_dict)
             (\<lambda>chip_dict'. Inr (chip_dict', free_hit_week, triple_captain_week)))"

record chip_tables =
  chip_data :: "chip_record list"
  free_hit_by_entry :: "(int, int option) dict"
  triple_captain_week_by_entry :: "(int, int option) dict"

definition chip_body ::
  "api \<Rightarrow> (int, string) dict \<Rightarrow> (int, entry_info) dict \<Rightarrow> int \<Rightarrow> chip_tables
   \<Rightarrow> error + chip_tables" where
  "chip_body a names entry_map entry_id st =
     (case chip_entry a names entry_map entry_id of
        Inl err \<Rightarrow> Inl err
      | Inr (chip_dict, free_hit_week, triple_captain_week) \<Rightarrow>
          Inr \<lparr>chip_data = chip_data st @ [chip_dict],
               free_hit_by_entry = dict_set (free_hit_by_entry st) entry_id free_hit_week,
               triple_captain_week_by_entry =
                 dict_set (triple_captain_week_by_entry st) entry_id triple_captain_week\<rparr>)"

definition chip_aggregator ::
  "api \<Rightarrow> (int, string) dict \<Rightarrow> (int, entry_info) dict \<Rightarrow> int list \<Rightarrow> error + chip_tables" where
  "chip_aggregator a names entry_map entries =
     for_loop (chip_body a names entry_map) entries
       \<lparr>chip_data = [], free_hit_by_entry = [], triple_captain_week_by_entry = []\<rparr>"

section \<open>Step 2: captaincy (lines 102 to 145)\<close>

record captaincy_record =
  Manager_Name_cp :: string
  Team_Name_cp :: string
  Gameweek_cp :: int
  Captain :: string
  Captain_Points :: cell
  Triple_Captain_Used :: string

text \<open>
  \<^verbatim>\<open>triple_captain_week_by_entry.get(entry_id)\<close>: \<^verbatim>\<open>None\<close> when the key is absent and
  when the value stored is \<^verbatim>\<open>None\<close>.
\<close>

definition stored_week :: "(int, int option) dict \<Rightarrow> int \<Rightarrow> int option" where
  "stored_week tbl entry_id = (case dict_get tbl entry_id of None \<Rightarrow> None | Some w \<Rightarrow> w)"

definition yes_no :: "bool \<Rightarrow> string" where
  "yes_no b = (if b then ''Yes'' else ''No'')"

text \<open>Lines 118 to 142: what one entry contributes to one gameweek.\<close>

definition captaincy_entry ::
  "api \<Rightarrow> (int, string) dict \<Rightarrow> (int, entry_info) dict \<Rightarrow> (int, int option) dict
   \<Rightarrow> int \<Rightarrow> (int, int) dict \<Rightarrow> int \<Rightarrow> error + captaincy_record option" where
  "captaincy_entry a names entry_map tc_by_entry gw player_points_map entry_id =
     (let picks_resp = picks_of a entry_id gw in
      if status_code picks_resp \<noteq> 200 then Inr None
      else
        let picks = (case json picks_resp of None \<Rightarrow> [] | Some ps \<Rightarrow> ps) in
        case if_truthy (first_captain picks) of
          None \<Rightarrow> Inr None
        | Some captain_id \<Rightarrow>
            bind_err (dict_index entry_map entry_id) (\<lambda>info.
              Inr (Some \<lparr>Manager_Name_cp = manager_name info,
                         Team_Name_cp = team_name info,
                         Gameweek_cp = gw,
                         Captain = name_or_dash names captain_id,
                         Captain_Points = points_or_dash player_points_map captain_id,
                         Triple_Captain_Used =
                           yes_no (Some gw = stored_week tc_by_entry entry_id)\<rparr>)))"

definition captaincy_entry_body ::
  "api \<Rightarrow> (int, string) dict \<Rightarrow> (int, entry_info) dict \<Rightarrow> (int, int option) dict
   \<Rightarrow> int \<Rightarrow> (int, int) dict \<Rightarrow> int \<Rightarrow> captaincy_record list
   \<Rightarrow> error + captaincy_record list" where
  "captaincy_entry_body a names entry_map tc_by_entry gw player_points_map entry_id
     captaincy_data =
     bind_err (captaincy_entry a names entry_map tc_by_entry gw player_points_map entry_id)
       (\<lambda>r. case r of None \<Rightarrow> Inr captaincy_data
                       | Some row \<Rightarrow> Inr (captaincy_data @ [row]))"

text \<open>Lines 105 to 142: one gameweek.\<close>

definition captaincy_gw_body ::
  "api \<Rightarrow> (int, string) dict \<Rightarrow> (int, entry_info) dict \<Rightarrow> int list
   \<Rightarrow> (int, int option) dict \<Rightarrow> int \<Rightarrow> captaincy_record list
   \<Rightarrow> error + captaincy_record list" where
  "captaincy_gw_body a names entry_map entries tc_by_entry gw captaincy_data =
     (let live_resp = live a gw in
      if status_code live_resp \<noteq> 200 then Inr captaincy_data
      else
        for_loop
          (captaincy_entry_body a names entry_map tc_by_entry gw (points_map (json live_resp)))
          entries captaincy_data)"

text \<open>\<^verbatim>\<open>range(1, 39)\<close> is the list of the gameweeks 1 to 38.\<close>

definition captaincy_aggregator ::
  "api \<Rightarrow> (int, string) dict \<Rightarrow> (int, entry_info) dict \<Rightarrow> int list
   \<Rightarrow> (int, int option) dict \<Rightarrow> error + captaincy_record list" where
  "captaincy_aggregator a names entry_map entries tc_by_entry =
     for_loop (captaincy_gw_body a names entry_map entries tc_by_entry) [1..38] []"


section \<open>Step 3: transfers (lines 147 to 180)\<close>

record transfer_record =
  Manager_Name_tr :: string
  Team_Name_tr :: string
  Gameweek_tr :: int
  Player_Out :: string
  Out_Team :: string
  Out_Position :: string
  Player_In :: string
  In_Team :: string
  In_Position :: string
  Free_Hit_Active :: string

text \<open>Lines 158 to 174: what one transfer contributes.\<close>

definition transfer_row ::
  "catalog \<Rightarrow> (int, entry_info) dict \<Rightarrow> (int, int option) dict \<Rightarrow> int \<Rightarrow> transfer
   \<Rightarrow> error + transfer_record option" where
  "transfer_row cat entry_map fh_by_entry entry_id t =
     (if \<not> dict_mem (element_in t) (id_to_name cat)
         \<or> \<not> dict_mem (element_out t) (id_to_name cat)
      then Inr None
      else
        let free_hit_used = yes_no (Some (event_tr t) = stored_week fh_by_entry entry_id) in
        bind_err (dict_index entry_map entry_id) (\<lambda>info.
        bind_err (dict_index (id_to_name cat) (element_out t)) (\<lambda>out_name.
        bind_err (dict_index (id_to_team cat) (element_out t)) (\<lambda>out_team.
        bind_err (dict_index (id_to_position cat) (element_out t)) (\<lambda>out_position.
        bind_err (dict_index (id_to_name cat) (element_in t)) (\<lambda>in_name.
        bind_err (dict_index (id_to_team cat) (element_in t)) (\<lambda>in_team.
        bind_err (dict_index (id_to_position cat) (element_in t)) (\<lambda>in_position.
          Inr (Some \<lparr>Manager_Name_tr = manager_name info,
                     Team_Name_tr = team_name info,
                     Gameweek_tr = event_tr t,
                     Player_Out = out_name,
                     Out_Team = out_team,
                     Out_Position = out_position,
                     Player_In = in_name,
                     In_Team = in_team,
                     In_Position = in_position,
                     Free_Hit_Active = free_hit_used\<rparr>)))))))))"

definition transfer_body ::
  "catalog \<Rightarrow> (int, entry_info) dict \<Rightarrow> (int, int option) dict \<Rightarrow> int \<Rightarrow> transfer
   \<Rightarrow> transfer_record list \<Rightarrow> error + transfer_record list" where
  "transfer_body cat entry_map fh_by_entry entry_id t all_transfers =
     bind_err (transfer_row cat entry_map fh_by_entry entry_id t)
       (\<lambda>r. case r of None \<Rightarrow> Inr all_transfers
                       | Some row \<Rightarrow> Inr (all_transfers @ [row]))"

definition transfer_entry_body ::
  "api \<Rightarrow> catalog \<Rightarrow> (int, entry_info) dict \<Rightarrow> (int, int option) dict \<Rightarrow> int
   \<Rightarrow> transfer_record list \<Rightarrow> error + transfer_record list" where
  "transfer_entry_body a cat entry_map fh_by_entry entry_id all_transfers =
     (let resp = transfers_of a entry_id in
      if status_code resp = 200 then
        for_loop (transfer_body cat entry_map fh_by_entry entry_id) (json resp) all_transfers
      else Inr all_transfers)"

definition collect_transfers ::
  "api \<Rightarrow> catalog \<Rightarrow> (int, entry_info) dict \<Rightarrow> int list \<Rightarrow> (int, int option) dict
   \<Rightarrow> error + transfer_record list" where
  "collect_transfers a cat entry_map entries fh_by_entry =
     for_loop (transfer_entry_body a cat entry_map fh_by_entry) entries []"

text \<open>
  \<^verbatim>\<open>df_transfers.sort_values(by=['Gameweek', 'Manager Name'], inplace=True)\<close>: the rows
  in ascending order of the pair of the two columns, rows with equal pairs in their
  original order.
\<close>

definition sort_values :: "transfer_record list \<Rightarrow> transfer_record list" where
  "sort_values rows = sort_key (\<lambda>r. (Gameweek_tr r, Manager_Name_tr r)) rows"

text \<open>Lines 177 to 180: the sort is guarded by \<^verbatim>\<open>if not df_transfers.empty\<close>.\<close>

definition finish_transfers :: "transfer_record list \<Rightarrow> transfer_record list" where
  "finish_transfers all_transfers =
     (if all_transfers \<noteq> [] then sort_values all_transfers else all_transfers)"

definition transfer_aggregator ::
  "api \<Rightarrow> catalog \<Rightarrow> (int, entry_info) dict \<Rightarrow> int list \<Rightarrow> (int, int option) dict
   \<Rightarrow> error + transfer_record list" where
  "transfer_aggregator a cat entry_map entries fh_by_entry =
     bind_err (collect_transfers a cat entry_map entries fh_by_entry)
       (\<lambda>all_transfers. Inr (finish_transfers all_transfers))"


section \<open>The whole run, up to the three tables handed to the writer\<close>

record tables =
  df_transfers :: "transfer_record list"
  df_chips :: "chip_record list"
  df_captaincy :: "captaincy_record list"

definition run :: "api \<Rightarrow> error + tables" where
  "run a =
     (let entry_map = entry_map_of (league_standings a);
          entries = dict_keys entry_map
      in
      bind_err (load_catalog (bootstrap a)) (\<lambda>cat.
      bind_err (chip_aggregator a (id_to_name cat) entry_map entries) (\<lambda>ct.
      bind_err (captaincy_aggregator a (id_to_name cat) entry_map entries
                  (triple_captain_week_by_entry ct)) (\<lambda>cap.
      bind_err (transfer_aggregator a cat entry_map entries (free_hit_by_entry ct)) (\<lambda>tr.
        Inr \<lparr>df_transfers = tr, df_chips = chip_data ct, df_captaincy = cap\<rparr>)))))"


section \<open>Notions used in the statements\<close>

text \<open>
  The gameweek of the last chip of a history that satisfies a predicate: a later chip of
  the same kind overwrites what an earlier one stored.
\<close>

definition last_event :: "(chip \<Rightarrow> bool) \<Rightarrow> chip list \<Rightarrow> int option" where
  "last_event P cs = (case filter P (rev cs) of [] \<Rightarrow> None | c # _ \<Rightarrow> Some (event c))"

text \<open>The chips that the loop of lines 59 to 76 runs through for an entry.\<close>

definition history_chips :: "api \<Rightarrow> int \<Rightarrow> chip list" where
  "history_chips a entry_id =
     (if status_code (history a entry_id) = 200
      then (case json (history a entry_id) of None \<Rightarrow> [] | Some chips \<Rightarrow> chips)
      else [])"

definition free_hit_week_of :: "api \<Rightarrow> int \<Rightarrow> int option" where
  "free_hit_week_of a entry_id = last_event (\<lambda>c. name c = ''freehit'') (history_chips a entry_id)"

definition triple_captain_week_of :: "api \<Rightarrow> int \<Rightarrow> int option" where
  "triple_captain_week_of a entry_id = last_event (\<lambda>c. name c = ''3xc'') (history_chips a entry_id)"


section \<open>A small league, for concrete runs\<close>

text \<open>
  Two entries and two players.  Entry 100 played the triple-captain chip in gameweek 15
  with player 7 as captain; the history of entry 200 is unavailable; live scores exist for
  gameweeks 15 and 16 only; the picks of entry 200 for gameweek 15 flag no captain; one
  transfer of entry 100 names a player (55) that is not in the catalog.
\<close>

definition demo_api :: api where
  "demo_api =
     \<lparr>league_standings =
        [\<lparr>entry = 100, player_name = ''Bea'', entry_name = ''Bea FC''\<rparr>,
         \<lparr>entry = 200, player_name = ''Al'', entry_name = ''Al XI''\<rparr>],
      bootstrap =
        \<lparr>elements =
           [\<lparr>id_el = 7, web_name = ''Salah'', team = 1, element_type = 1\<rparr>,
            \<lparr>id_el = 9, web_name = ''Kane'', team = 2, element_type = 2\<rparr>],
         teams = [''Liverpool'', ''Spurs''],
         positions = [''Midfielder'', ''Forward'']\<rparr>,
      history = (\<lambda>e. if e = 100
                      then \<lparr>status_code = 200, json = Some [\<lparr>name = ''3xc'', event = 15\<rparr>]\<rparr>
                      else \<lparr>status_code = 404, json = None\<rparr>),
      picks_of = (\<lambda>e gw.
         if e = 100 \<and> gw = 15
         then \<lparr>status_code = 200,
               json = Some [\<lparr>element_pk = 9, is_captain = False\<rparr>,
                            \<lparr>element_pk = 7, is_captain = True\<rparr>]\<rparr>
         else if e = 100 \<and> gw = 16
         then \<lparr>status_code = 200, json = Some [\<lparr>element_pk = 9, is_captain = True\<rparr>]\<rparr>
         else if e = 200 \<and> gw = 15
         then \<lparr>status_code = 200, json = Some [\<lparr>element_pk = 9, is_captain = False\<rparr>]\<rparr>
         else if e = 200 \<and> gw = 16
         then \<lparr>status_code = 200, json = Some [\<lparr>element_pk = 9, is_captain = True\<rparr>]\<rparr>
         else \<lparr>status_code = 404, json = None\<rparr>),
      live = (\<lambda>gw.
         if gw = 15
         then \<lparr>status_code = 200,
               json = [\<lparr>id_lv = 7, total_points = 18\<rparr>, \<lparr>id_lv = 9, total_points = 2\<rparr>]\<rparr>
         else if gw = 16
         then \<lparr>status_code = 200, json = [\<lparr>id_lv = 9, total_points = 5\<rparr>]\<rparr>
         else \<lparr>status_code = 503, json = []\<rparr>),
      transfers_of = (\<lambda>e.
         if e = 100
         then \<lparr>status_code = 200,
               json = [\<lparr>element_in = 9, element_out = 7, event_tr = 16\<rparr>,
                       \<lparr>element_in = 7, element_out = 9, event_tr = 3\<rparr>,
                       \<lparr>element_in = 55, element_out = 7, event_tr = 4\<rparr>]\<rparr>
         else if e = 200
         then \<lparr>status_code = 200,
               json = [\<lparr>element_in = 7, element_out = 9, event_tr = 3\<rparr>]\<rparr>
         else \<lparr>status_code = 404, json = []\<rparr>)\<rparr>"


text \<open>The tables that the run builds from these responses.\<close>

definition demo_entry_map :: "(int, entry_info) dict" where
  "demo_entry_map =
     [(100, \<lparr>manager_name = ''Bea'', team_name = ''Bea FC''\<rparr>),
      (200, \<lparr>manager_name = ''Al'', team_name = ''Al XI''\<rparr>)]"

definition demo_catalog :: catalog where
  "demo_catalog =
     \<lparr>id_to_name = [(7, ''Salah''), (9, ''Kane'')],
      id_to_team = [(7, ''Liverpool''), (9, ''Spurs'')],
      id_to_position = [(7, ''Midfielder''), (9, ''Forward'')]\<rparr>"

definition demo_chip_tables :: chip_tables where
  "demo_chip_tables =
     \<lparr>chip_data =
        [\<lparr>Manager_Name = ''Bea'', Team_Name = ''Bea FC'', Wildcard_1 = S ''-'',
           Wildcard_2 = S ''-'', Free_Hit = S ''-'', Bench_Boost = S ''-'',
           Triple_Captain = I 15, Triple_Captain_Player = S ''Salah'', TC_Points = I 18\<rparr>,
         \<lparr>Manager_Name = ''Al'', Team_Name = ''Al XI'', Wildcard_1 = S ''-'',
           Wildcard_2 = S ''-'', Free_Hit = S ''-'', Bench_Boost = S ''-'',
           Triple_Captain = S ''-'', Triple_Captain_Player = S ''-'', TC_Points = S ''-''\<rparr>],
      free_hit_by_entry = [(100, None), (200, None)],
      triple_captain_week_by_entry = [(100, Some 15), (200, None)]\<rparr>"

definition demo_captaincy :: "captaincy_record list" where
  "demo_captaincy =
     [\<lparr>Manager_Name_cp = ''Bea'', Team_Name_cp = ''Bea FC'', Gameweek_cp = 15,
        Captain = ''Salah'', Captain_Points = I 18, Triple_Captain_Used = ''Yes''\<rparr>,
      \<lparr>Manager_Name_cp = ''Bea'', Team_Name_cp = ''Bea FC'', Gameweek_cp = 16,
        Captain = ''Kane'', Captain_Points = I 5, Triple_Captain_Used = ''No''\<rparr>,
      \<lparr>Manager_Name_cp = ''Al'', Team_Name_cp = ''Al XI'', Gameweek_cp = 16,
        Captain = ''Kane'', Captain_Points = I 5, Triple_Captain_Used = ''No''\<rparr>]"

definition demo_transfers :: "transfer_record list" where
  "demo_transfers =
     [\<lparr>Manager_Name_tr = ''Al'', Team_Name_tr = ''Al XI'', Gameweek_tr = 3,
        Player_Out = ''Kane'', Out_Team = ''Spurs'', Out_Position = ''Forward'',
        Player_In = ''Salah'', In_Team = ''Liverpool'', In_Position = ''Midfielder'',
        Free_Hit_Active = ''No''\<rparr>,
      \<lparr>Manager_Name_tr = ''Bea'', Team_Name_tr = ''Bea FC'', Gameweek_tr = 3,
        Player_Out = ''Kane'', Out_Team = ''Spurs'', Out_Position = ''Forward'',
        Player_In = ''Salah'', In_Team = ''Liverpool'', In_Position = ''Midfielder'',
        Free_Hit_Active = ''No''\<rparr>,
      \<lparr>Manager_Name_tr = ''Bea'', Team_Name_tr = ''Bea FC'', Gameweek_tr = 16,
        Player_Out = ''Salah'', Out_Team = ''Liverpool'', Out_Position = ''Midfielder'',
        Player_In = ''Kane'', In_Team = ''Spurs'', In_Position = ''Forward'',
        Free_Hit_Active = ''No''\<rparr>]"


section \<open>Loops, dictionaries and the chip scan\<close>

lemma chip_step_fields:
  "chip_step st c = (cd', fh', tc') \<Longrightarrow> st = (cd, fh, tc) \<Longrightarrow>
   Wildcard_1 cd' = (if name c = ''wildcard'' \<and> event c \<le> 20 then I (event c) else Wildcard_1 cd)
 \<and> Wildcard_2 cd' = (if name c = ''wildcard'' \<and> 20 < event c then I (event c) else Wildcard_2 cd)
 \<and> fh' = (if name c = ''freehit'' then Some (event c) else fh)
 \<and> tc' = (if name c = ''3xc'' then Some (event c) else tc)
 \<and> Triple_Captain cd' = (if name c = ''3xc'' then I (event c) else Triple_Captain cd)
 \<and> Free_Hit cd' = (if name c = ''freehit'' then I (event c) else Free_Hit cd)
 \<and> Bench_Boost cd' = (if name c = ''bboost'' then I (event c) else Bench_Boost cd)
 \<and> Triple_Captain_Player cd' = Triple_Captain_Player cd
 \<and> TC_Points cd' = TC_Points cd
 \<and> Manager_Name cd' = Manager_Name cd \<and> Team_Name cd' = Team_Name cd"
  by (auto simp: Let_def split: if_splits)

lemma last_event_snoc:
  "last_event P (cs @ [c]) = (if P c then Some (event c) else last_event P cs)"
  by (simp add: last_event_def)

lemma scan_fields:
  "foldl chip_step (cd, fh, tc) cs = (cd', fh', tc') \<Longrightarrow>
   Wildcard_1 cd' = (case last_event (\<lambda>c. name c = ''wildcard'' \<and> event c \<le> 20) cs of None \<Rightarrow> Wildcard_1 cd | Some g \<Rightarrow> I g)
 \<and> Wildcard_2 cd' = (case last_event (\<lambda>c. name c = ''wildcard'' \<and> 20 < event c) cs of None \<Rightarrow> Wildcard_2 cd | Some g \<Rightarrow> I g)
 \<and> fh' = (case last_event (\<lambda>c. name c = ''freehit'') cs of None \<Rightarrow> fh | Some g \<Rightarrow> Some g)
 \<and> tc' = (case last_event (\<lambda>c. name c = ''3xc'') cs of None \<Rightarrow> tc | Some g \<Rightarrow> Some g)
 \<and> Triple_Captain cd' = (case last_event (\<lambda>c. name c = ''3xc'') cs of None \<Rightarrow> Triple_Captain cd | Some g \<Rightarrow> I g)
 \<and> Free_Hit cd' = (case last_event (\<lambda>c. name c = ''freehit'') cs of None \<Rightarrow> Free_Hit cd | Some g \<Rightarrow> I g)
 \<and> Bench_Boost cd' = (case last_event (\<lambda>c. name c = ''bboost'') cs of None \<Rightarrow> Bench_Boost cd | Some g \<Rightarrow> I g)
 \<and> Triple_Captain_Player cd' = Triple_Captain_Player cd
 \<and> TC_Points cd' = TC_Points cd
 \<and> Manager_Name cd' = Manager_Name cd \<and> Team_Name cd' = Team_Name cd"
proof (induction cs arbitrary: cd' fh' tc' rule: rev_induct)
  case Nil
  then show ?case by (simp add: last_event_def)
next
  case (snoc c cs)
  obtain cd1 fh1 tc1 where mid: "foldl chip_step (cd, fh, tc) cs = (cd1, fh1, tc1)"
    by (cases "foldl chip_step (cd, fh, tc) cs") auto
  from snoc.prems mid have step: "chip_step (cd1, fh1, tc1) c = (cd', fh', tc')" by simp
  note ih = snoc.IH [OF mid]
  note sf = chip_step_fields [OF step refl]
  show ?case
    unfolding last_event_snoc using ih sf by (simp split: if_splits)
qed

lemma scan_chips_eq:
  "scan_chips a info e = foldl chip_step (initial_chip_dict info, None, None) (history_chips a e)"
  by (simp add: scan_chips_def history_chips_def Let_def)

lemma scan_chips_weeks:
  assumes "scan_chips a info e = (cd, fh, tc)"
  shows "fh = free_hit_week_of a e" and "tc = triple_captain_week_of a e"
  using scan_fields [OF assms [unfolded scan_chips_eq]]
  by (auto simp: free_hit_week_of_def triple_captain_week_of_def split: option.splits)

lemma chip_entry_weeks:
  assumes "chip_entry a names em e = Inr (cd, fh, tc)"
  shows "fh = free_hit_week_of a e \<and> tc = triple_captain_week_of a e"
proof -
  from assms obtain info where "dict_index em e = Inr info"
    by (auto simp: chip_entry_def bind_err_def split: sum.splits)
  obtain cd0 fh0 tc0 where sc: "scan_chips a info e = (cd0, fh0, tc0)"
    by (cases "scan_chips a info e") auto
  with assms \<open>dict_index em e = Inr info\<close> have "fh = fh0" "tc = tc0"
    by (auto simp: chip_entry_def bind_err_def split: sum.splits)
  with scan_chips_weeks [OF sc] show ?thesis by simp
qed

lemma chip_body_Inr:
  assumes "chip_body a names em e st = Inr st'"
  shows "\<exists>cd. chip_entry a names em e = Inr (cd, free_hit_week_of a e, triple_captain_week_of a e)
          \<and> chip_data st' = chip_data st @ [cd]
          \<and> free_hit_by_entry st' = dict_set (free_hit_by_entry st) e (free_hit_week_of a e)
          \<and> triple_captain_week_by_entry st' =
              dict_set (triple_captain_week_by_entry st) e (triple_captain_week_of a e)"
proof (cases "chip_entry a names em e")
  case (Inl err)
  with assms show ?thesis by (simp add: chip_body_def)
next
  case (Inr r)
  obtain cd fh tc where r: "r = (cd, fh, tc)" by (cases r) auto
  from chip_entry_weeks [OF Inr [unfolded r]] Inr r assms
  show ?thesis by (auto simp: chip_body_def)
qed

lemma map_of_dict_set: "map_of (dict_set d k v) k' = (if k' = k then Some v else map_of d k')"
  by (simp add: dict_set_def update_conv')

lemma keys_dict_set: "set (dict_keys (dict_set d k v)) = insert k (set (dict_keys d))"
  using dom_update [of k v d] by (simp add: dict_set_def dict_keys_def)

lemma chip_loop_tables:
  assumes "for_loop (chip_body a names em) es st = Inr st'"
  shows "map_of (free_hit_by_entry st') e =
           (if e \<in> set es then Some (free_hit_week_of a e) else map_of (free_hit_by_entry st) e)
       \<and> map_of (triple_captain_week_by_entry st') e =
           (if e \<in> set es then Some (triple_captain_week_of a e)
            else map_of (triple_captain_week_by_entry st) e)
       \<and> set (dict_keys (free_hit_by_entry st')) = set (dict_keys (free_hit_by_entry st)) \<union> set es
       \<and> set (dict_keys (triple_captain_week_by_entry st')) =
           set (dict_keys (triple_captain_week_by_entry st)) \<union> set es
       \<and> length (chip_data st') = length (chip_data st) + length es"
  using assms
proof (induction es arbitrary: st)
  case Nil
  then show ?case by simp
next
  case (Cons x xs)
  from Cons.prems obtain st1 where b: "chip_body a names em x st = Inr st1"
    and l: "for_loop (chip_body a names em) xs st1 = Inr st'"
    by (auto split: sum.splits)
  from chip_body_Inr [OF b] Cons.IH [OF l] show ?case
    by (auto simp: map_of_dict_set keys_dict_set)
qed

lemma dict_mem_keys: "dict_mem k d \<longleftrightarrow> k \<in> set (dict_keys d)"
  by (simp add: dict_mem_def dict_keys_def map_of_eq_None_iff)

lemma dict_index_Inr_iff: "(\<exists>v. dict_index d k = Inr v) \<longleftrightarrow> k \<in> set (dict_keys d)"
  using dict_mem_keys [of k d] by (cases "map_of d k") (auto simp: dict_index_def dict_mem_def)

lemma dict_index_mem: "dict_mem k d \<Longrightarrow> \<exists>v. dict_index d k = Inr v \<and> dict_get d k = Some v"
  by (auto simp: dict_index_def dict_mem_def dict_get_def split: option.splits)

lemma dict_keys_dict_set:
  "dict_keys (dict_set d k v) = (if k \<in> set (dict_keys d) then dict_keys d else dict_keys d @ [k])"
  by (simp add: dict_keys_def dict_set_def update_keys)

lemma dict_comp_keys:
  "dict_comp f es d = Inr d1 \<Longrightarrow> dict_comp g es d' = Inr d2 \<Longrightarrow> dict_keys d = dict_keys d'
   \<Longrightarrow> dict_keys d1 = dict_keys d2"
proof (induction es arbitrary: d d')
  case Nil
  then show ?case by simp
next
  case (Cons e es)
  from Cons.prems obtain v w where
    "dict_comp f es (dict_set d (id_el e) v) = Inr d1"
    "dict_comp g es (dict_set d' (id_el e) w) = Inr d2"
    by (auto split: sum.splits)
  moreover have "dict_keys (dict_set d (id_el e) v) = dict_keys (dict_set d' (id_el e) w)"
    using Cons.prems(3) by (simp add: dict_keys_dict_set)
  ultimately show ?case by (rule Cons.IH)
qed

lemma load_catalog_keys:
  assumes "load_catalog b = Inr cat"
  shows "dict_keys (id_to_team cat) = dict_keys (id_to_name cat)"
    and "dict_keys (id_to_position cat) = dict_keys (id_to_name cat)"
proof -
  from assms obtain names tms poss where
    n: "dict_comp (\<lambda>e. Inr (web_name e)) (elements b) [] = Inr names" and
    t: "dict_comp (\<lambda>e. list_index (teams b) (team e - 1)) (elements b) [] = Inr tms" and
    p: "dict_comp (\<lambda>e. list_index (positions b) (element_type e - 1)) (elements b) [] = Inr poss"
    and c: "cat = \<lparr>id_to_name = names, id_to_team = tms, id_to_position = poss\<rparr>"
    by (auto simp: load_catalog_def split: sum.splits)
  show "dict_keys (id_to_team cat) = dict_keys (id_to_name cat)"
    using dict_comp_keys [OF t n] c by simp
  show "dict_keys (id_to_position cat) = dict_keys (id_to_name cat)"
    using dict_comp_keys [OF p n] c by simp
qed

lemma transfer_row_Some:
  assumes "dict_keys (id_to_team cat) = dict_keys (id_to_name cat)"
      and "dict_keys (id_to_position cat) = dict_keys (id_to_name cat)"
      and "dict_mem (element_in t) (id_to_name cat)"
      and "dict_mem (element_out t) (id_to_name cat)"
      and "dict_index em e = Inr info"
  shows "\<exists>r. transfer_row cat em fh e t = Inr (Some r)"
proof -
  from assms have "dict_mem (element_in t) (id_to_team cat)" "dict_mem (element_out t) (id_to_team cat)"
    "dict_mem (element_in t) (id_to_position cat)" "dict_mem (element_out t) (id_to_position cat)"
    by (simp_all add: dict_mem_keys)
  then obtain a1 a2 a3 a4 a5 a6 where
    "dict_index (id_to_name cat) (element_out t) = Inr a1"
    "dict_index (id_to_team cat) (element_out t) = Inr a2"
    "dict_index (id_to_position cat) (element_out t) = Inr a3"
    "dict_index (id_to_name cat) (element_in t) = Inr a4"
    "dict_index (id_to_team cat) (element_in t) = Inr a5"
    "dict_index (id_to_position cat) (element_in t) = Inr a6"
    using assms(3,4) by (meson dict_index_mem)
  with assms(3,4,5) show ?thesis
    by (simp add: transfer_row_def bind_err_def)
qed

lemma captaincy_entry_loop:
  assumes "for_loop (captaincy_entry_body a names em tc gw pts) es st = Inr st'"
  shows "\<exists>new. st' = st @ new \<and>
           (\<forall>r \<in> set new. \<exists>e \<in> set es. captaincy_entry a names em tc gw pts e = Inr (Some r))"
  using assms
proof (induction es arbitrary: st)
  case Nil
  then show ?case by simp
next
  case (Cons x xs)
  from Cons.prems obtain st1 where b: "captaincy_entry_body a names em tc gw pts x st = Inr st1"
    and l: "for_loop (captaincy_entry_body a names em tc gw pts) xs st1 = Inr st'"
    by (auto split: sum.splits)
  from Cons.IH [OF l] obtain new where new: "st' = st1 @ new"
    "\<forall>r \<in> set new. \<exists>e \<in> set xs. captaincy_entry a names em tc gw pts e = Inr (Some r)"
    by blast
  from b have "st1 = st \<or> (\<exists>r. captaincy_entry a names em tc gw pts x = Inr (Some r) \<and> st1 = st @ [r])"
    by (auto simp: captaincy_entry_body_def bind_err_def split: sum.splits option.splits)
  then show ?case
  proof
    assume "st1 = st"
    with new show ?thesis by auto
  next
    assume "\<exists>r. captaincy_entry a names em tc gw pts x = Inr (Some r) \<and> st1 = st @ [r]"
    then obtain r where "captaincy_entry a names em tc gw pts x = Inr (Some r)" "st1 = st @ [r]"
      by blast
    with new have "st' = st @ (r # new)"
      "\<forall>q \<in> set (r # new). \<exists>e \<in> set (x # xs). captaincy_entry a names em tc gw pts e = Inr (Some q)"
      by auto
    then show ?thesis by blast
  qed
qed

lemma captaincy_gw_loop:
  assumes "for_loop (captaincy_gw_body a names em es tc) gws st = Inr st'"
  shows "\<exists>new. st' = st @ new \<and>
           (\<forall>r \<in> set new. \<exists>gw \<in> set gws. status_code (live a gw) = 200 \<and>
              (\<exists>e \<in> set es. captaincy_entry a names em tc gw (points_map (json (live a gw))) e
                               = Inr (Some r)))"
  using assms
proof (induction gws arbitrary: st)
  case Nil
  then show ?case by simp
next
  case (Cons g gs)
  from Cons.prems obtain st1 where b: "captaincy_gw_body a names em es tc g st = Inr st1"
    and l: "for_loop (captaincy_gw_body a names em es tc) gs st1 = Inr st'"
    by (auto split: sum.splits)
  from Cons.IH [OF l] obtain new where new: "st' = st1 @ new"
    "\<forall>r \<in> set new. \<exists>gw \<in> set gs. status_code (live a gw) = 200 \<and>
        (\<exists>e \<in> set es. captaincy_entry a names em tc gw (points_map (json (live a gw))) e
                         = Inr (Some r))"
    by blast
  have "\<exists>mid. st1 = st @ mid \<and> (\<forall>r \<in> set mid. status_code (live a g) = 200 \<and>
          (\<exists>e \<in> set es. captaincy_entry a names em tc g (points_map (json (live a g))) e
                           = Inr (Some r)))"
  proof (cases "status_code (live a g) = 200")
    case True
    with b have "for_loop (captaincy_entry_body a names em tc g (points_map (json (live a g))))
                   es st = Inr st1"
      by (simp add: captaincy_gw_body_def Let_def)
    from captaincy_entry_loop [OF this] True show ?thesis by blast
  next
    case False
    with b have "st1 = st" by (simp add: captaincy_gw_body_def Let_def)
    then show ?thesis by simp
  qed
  then obtain mid where mid: "st1 = st @ mid"
    "\<forall>r \<in> set mid. status_code (live a g) = 200 \<and>
          (\<exists>e \<in> set es. captaincy_entry a names em tc g (points_map (json (live a g))) e
                           = Inr (Some r))"
    by blast
  from new mid have "st' = st @ (mid @ new)" by simp
  moreover from new(2) mid(2)
  have "\<forall>r \<in> set (mid @ new). \<exists>gw \<in> set (g # gs). status_code (live a gw) = 200 \<and>
          (\<exists>e \<in> set es. captaincy_entry a names em tc gw (points_map (json (live a gw))) e
                           = Inr (Some r))"
    by auto
  ultimately show ?case by blast
qed

lemma captaincy_entry_Some:
  assumes "captaincy_entry a names em tc gw pts e = Inr (Some r)"
  shows "Gameweek_cp r = gw"
    and "Triple_Captain_Used r = yes_no (Some gw = stored_week tc e)"
    and "status_code (picks_of a e gw) = 200"
    and "\<exists>c. if_truthy (first_captain (case json (picks_of a e gw) of None \<Rightarrow> [] | Some ps \<Rightarrow> ps)) = Some c
             \<and> Captain r = name_or_dash names c \<and> Captain_Points r = points_or_dash pts c"
    and "\<exists>info. dict_index em e = Inr info \<and> Manager_Name_cp r = manager_name info
             \<and> Team_Name_cp r = team_name info"
  using assms
  by (auto simp: captaincy_entry_def bind_err_def Let_def split: if_splits option.splits sum.splits)

lemma transfer_loop:
  assumes "for_loop (transfer_body cat em fh e) ts st = Inr st'"
  shows "\<exists>new. st' = st @ new \<and>
           (\<forall>r \<in> set new. \<exists>t \<in> set ts. transfer_row cat em fh e t = Inr (Some r))"
  using assms
proof (induction ts arbitrary: st)
  case Nil
  then show ?case by simp
next
  case (Cons x xs)
  from Cons.prems obtain st1 where b: "transfer_body cat em fh e x st = Inr st1"
    and l: "for_loop (transfer_body cat em fh e) xs st1 = Inr st'"
    by (auto split: sum.splits)
  from Cons.IH [OF l] obtain new where new: "st' = st1 @ new"
    "\<forall>r \<in> set new. \<exists>t \<in> set xs. transfer_row cat em fh e t = Inr (Some r)"
    by blast
  from b have "st1 = st \<or> (\<exists>r. transfer_row cat em fh e x = Inr (Some r) \<and> st1 = st @ [r])"
    by (auto simp: transfer_body_def bind_err_def split: sum.splits option.splits)
  then show ?case
  proof
    assume "st1 = st"
    with new show ?thesis by auto
  next
    assume "\<exists>r. transfer_row cat em fh e x = Inr (Some r) \<and> st1 = st @ [r]"
    then obtain r where "transfer_row cat em fh e x = Inr (Some r)" "st1 = st @ [r]"
      by blast
    with new have "st' = st @ (r # new)"
      "\<forall>q \<in> set (r # new). \<exists>t \<in> set (x # xs). transfer_row cat em fh e t = Inr (Some q)"
      by auto
    then show ?thesis by blast
  qed
qed

lemma transfer_entry_loop:
  assumes "for_loop (transfer_entry_body a cat em fh) es st = Inr st'"
  shows "\<exists>new. st' = st @ new \<and>
           (\<forall>r \<in> set new. \<exists>e \<in> set es. status_code (transfers_of a e) = 200 \<and>
              (\<exists>t \<in> set (json (transfers_of a e)). transfer_row cat em fh e t = Inr (Some r)))"
  using assms
proof (induction es arbitrary: st)
  case Nil
  then show ?case by simp
next
  case (Cons x xs)
  from Cons.prems obtain st1 where b: "transfer_entry_body a cat em fh x st = Inr st1"
    and l: "for_loop (transfer_entry_body a cat em fh) xs st1 = Inr st'"
    by (auto split: sum.splits)
  from Cons.IH [OF l] obtain new where new: "st' = st1 @ new"
    "\<forall>r \<in> set new. \<exists>e \<in> set xs. status_code (transfers_of a e) = 200 \<and>
        (\<exists>t \<in> set (json (transfers_of a e)). transfer_row cat em fh e t = Inr (Some r))"
    by blast
  have "\<exists>mid. st1 = st @ mid \<and> (\<forall>r \<in> set mid. status_code (transfers_of a x) = 200 \<and>
          (\<exists>t \<in> set (json (transfers_of a x)). transfer_row cat em fh x t = Inr (Some r)))"
  proof (cases "status_code (transfers_of a x) = 200")
    case True
    with b have "for_loop (transfer_body cat em fh x) (json (transfers_of a x)) st = Inr st1"
      by (simp add: transfer_entry_body_def Let_def)
    from transfer_loop [OF this] True show ?thesis by blast
  next
    case False
    with b have "st1 = st" by (simp add: transfer_entry_body_def Let_def)
    then show ?thesis by simp
  qed
  then obtain mid where mid: "st1 = st @ mid"
    "\<forall>r \<in> set mid. status_code (transfers_of a x) = 200 \<and>
          (\<exists>t \<in> set (json (transfers_of a x)). transfer_row cat em fh x t = Inr (Some r))"
    by blast
  from new mid have "st' = st @ (mid @ new)" by simp
  moreover from new(2) mid(2)
  have "\<forall>r \<in> set (mid @ new). \<exists>e \<in> set (x # xs). status_code (transfers_of a e) = 200 \<and>
          (\<exists>t \<in> set (json (transfers_of a e)). transfer_row cat em fh e t = Inr (Some r))"
    by auto
  ultimately show ?case by blast
qed

lemma transfer_row_Some_fields:
  assumes "transfer_row cat em fh e t = Inr (Some r)"
  shows "dict_mem (element_in t) (id_to_name cat)"
    and "dict_mem (element_out t) (id_to_name cat)"
    and "Gameweek_tr r = event_tr t"
    and "dict_get (id_to_name cat) (element_out t) = Some (Player_Out r)"
    and "dict_get (id_to_name cat) (element_in t) = Some (Player_In r)"
    and "Free_Hit_Active r = yes_no (Some (event_tr t) = stored_week fh e)"
    and "\<exists>info. dict_index em e = Inr info \<and> Manager_Name_tr r = manager_name info"
  using assms
  by (auto simp: transfer_row_def bind_err_def Let_def dict_index_def dict_get_def
           split: if_splits option.splits sum.splits)

lemma set_finish_transfers: "set (finish_transfers rows) = set rows"
  by (simp add: finish_transfers_def sort_values_def)

lemma sorted_finish_transfers:
  "sorted (map (\<lambda>r. (Gameweek_tr r, Manager_Name_tr r)) (finish_transfers rows))"
  by (simp add: finish_transfers_def sort_values_def)

lemma finish_transfers_ordered:
  assumes "i < j" "j < length (finish_transfers rows)"
  shows "Gameweek_tr (finish_transfers rows ! i) \<le> Gameweek_tr (finish_transfers rows ! j)"
    and "Gameweek_tr (finish_transfers rows ! i) = Gameweek_tr (finish_transfers rows ! j)
         \<Longrightarrow> Manager_Name_tr (finish_transfers rows ! i) \<le> Manager_Name_tr (finish_transfers rows ! j)"
proof -
  let ?k = "\<lambda>r. (Gameweek_tr r, Manager_Name_tr r)"
  let ?xs = "finish_transfers rows"
  have "sorted (map ?k ?xs)" by (rule sorted_finish_transfers)
  moreover from assms have "i \<le> j" "j < length (map ?k ?xs)" by simp_all
  ultimately have "map ?k ?xs ! i \<le> map ?k ?xs ! j" by (rule sorted_nth_mono)
  with assms have le: "?k (?xs ! i) \<le> ?k (?xs ! j)" by simp
  then show "Gameweek_tr (?xs ! i) \<le> Gameweek_tr (?xs ! j)"
    by (auto simp: less_eq_prod_def)
  assume "Gameweek_tr (?xs ! i) = Gameweek_tr (?xs ! j)"
  with le show "Manager_Name_tr (?xs ! i) \<le> Manager_Name_tr (?xs ! j)"
    by (auto simp: less_eq_prod_def)
qed


lemma last_event_None_iff: "last_event P cs = None \<longleftrightarrow> (\<forall>c \<in> set cs. \<not> P c)"
proof -
  have "last_event P cs = None \<longleftrightarrow> filter P (rev cs) = []"
    by (simp add: last_event_def split: list.splits)
  then show ?thesis by (auto simp: filter_empty_conv)
qed

lemma history_chips_unavailable: "status_code (history a e) \<noteq> 200 \<Longrightarrow> history_chips a e = []"
  by (simp add: history_chips_def)

lemma if_truthy_None [simp]: "if_truthy None = None"
  by (simp add: if_truthy_def)

lemma chip_entry_unavailable:
  assumes "dict_index em e = Inr info" "status_code (history a e) \<noteq> 200"
  shows "chip_entry a names em e = Inr (initial_chip_dict info, None, None)"
  using assms
  by (simp add: chip_entry_def bind_err_def scan_chips_def resolve_triple_captain_def)

lemma chip_loop_data:
  assumes "for_loop (chip_body a names em) es st = Inr st'"
  shows "\<exists>new. chip_data st' = chip_data st @ new \<and>
           list_all2 (\<lambda>e cd. \<exists>fh tc. chip_entry a names em e = Inr (cd, fh, tc)) es new"
  using assms
proof (induction es arbitrary: st)
  case Nil
  then show ?case by simp
next
  case (Cons x xs)
  from Cons.prems obtain st1 where b: "chip_body a names em x st = Inr st1"
    and l: "for_loop (chip_body a names em) xs st1 = Inr st'"
    by (auto split: sum.splits)
  from chip_body_Inr [OF b] obtain cd where
    cd: "chip_entry a names em x = Inr (cd, free_hit_week_of a x, triple_captain_week_of a x)"
        "chip_data st1 = chip_data st @ [cd]"
    by blast
  from Cons.IH [OF l] obtain new where new: "chip_data st' = chip_data st1 @ new"
    "list_all2 (\<lambda>e cd. \<exists>fh tc. chip_entry a names em e = Inr (cd, fh, tc)) xs new"
    by blast
  from cd new have "chip_data st' = chip_data st @ (cd # new)"
    "list_all2 (\<lambda>e cd. \<exists>fh tc. chip_entry a names em e = Inr (cd, fh, tc)) (x # xs) (cd # new)"
    by auto
  then show ?case by blast
qed

lemma chip_aggregator_rows:
  assumes "chip_aggregator a names em es = Inr ct"
  shows "length (chip_data ct) = length es"
    and "i < length es \<Longrightarrow> \<exists>fh tc. chip_entry a names em (es ! i) = Inr (chip_data ct ! i, fh, tc)"
proof -
  from chip_loop_data [OF assms [unfolded chip_aggregator_def]]
  have l: "list_all2 (\<lambda>e cd. \<exists>fh tc. chip_entry a names em e = Inr (cd, fh, tc)) es (chip_data ct)"
    by simp
  then show "length (chip_data ct) = length es"
    by (simp add: list_all2_lengthD)
  assume "i < length es"
  with l show "\<exists>fh tc. chip_entry a names em (es ! i) = Inr (chip_data ct ! i, fh, tc)"
    by (rule list_all2_nthD)
qed

lemma chip_entry_Inr_info:
  "chip_entry a names em e = Inr r \<Longrightarrow> \<exists>info. dict_index em e = Inr info"
  by (auto simp: chip_entry_def bind_err_def split: sum.splits)



lemma transfer_aggregator_rows:
  assumes "transfer_aggregator a cat em es fh = Inr out"
  shows "\<exists>all. collect_transfers a cat em es fh = Inr all \<and> out = finish_transfers all"
  using assms by (auto simp: transfer_aggregator_def bind_err_def split: sum.splits)

lemma points_map_fold:
  assumes "\<forall>p \<in> set els. id_lv p = i \<longrightarrow> total_points p = v"
  shows "map_of (foldl (\<lambda>m p. dict_set m (id_lv p) (total_points p)) d els) i =
           (if \<exists>p \<in> set els. id_lv p = i then Some v else map_of d i)"
  using assms
proof (induction els arbitrary: d)
  case Nil
  then show ?case by simp
next
  case (Cons p ps)
  from Cons.prems have rest: "\<forall>q \<in> set ps. id_lv q = i \<longrightarrow> total_points q = v"
    and hd: "id_lv p = i \<longrightarrow> total_points p = v"
    by simp_all
  show ?case
    using Cons.IH [OF rest, of "dict_set d (id_lv p) (total_points p)"] hd
    by (auto simp: map_of_dict_set)
qed

lemma points_map_get:
  assumes "p \<in> set els" and "\<forall>q \<in> set els. id_lv q = id_lv p \<longrightarrow> total_points q = total_points p"
  shows "dict_get (points_map els) (id_lv p) = Some (total_points p)"
  using points_map_fold [OF assms(2), of "[]"] assms(1)
  by (auto simp: points_map_def dict_get_def)

lemma captaincy_entry_loop_complete:
  assumes "for_loop (captaincy_entry_body a names em tc gw pts) es st = Inr st'"
      and "e \<in> set es" and "captaincy_entry a names em tc gw pts e = Inr (Some r)"
  shows "r \<in> set st'"
  using assms
proof (induction es arbitrary: st)
  case Nil
  then show ?case by simp
next
  case (Cons x xs)
  from Cons.prems(1) obtain st1 where b: "captaincy_entry_body a names em tc gw pts x st = Inr st1"
    and l: "for_loop (captaincy_entry_body a names em tc gw pts) xs st1 = Inr st'"
    by (auto split: sum.splits)
  show ?case
  proof (cases "e = x")
    case True
    with b Cons.prems(3) have "r \<in> set st1"
      by (auto simp: captaincy_entry_body_def bind_err_def)
    with captaincy_entry_loop [OF l] show ?thesis by auto
  next
    case False
    with Cons.prems(2) have "e \<in> set xs" by simp
    from Cons.IH [OF l this Cons.prems(3)] show ?thesis .
  qed
qed

lemma captaincy_gw_loop_complete:
  assumes "for_loop (captaincy_gw_body a names em es tc) gws st = Inr st'"
      and "gw \<in> set gws" and "status_code (live a gw) = 200" and "e \<in> set es"
      and "captaincy_entry a names em tc gw (points_map (json (live a gw))) e = Inr (Some r)"
  shows "r \<in> set st'"
  using assms
proof (induction gws arbitrary: st)
  case Nil
  then show ?case by simp
next
  case (Cons g gs)
  from Cons.prems(1) obtain st1 where b: "captaincy_gw_body a names em es tc g st = Inr st1"
    and l: "for_loop (captaincy_gw_body a names em es tc) gs st1 = Inr st'"
    by (auto split: sum.splits)
  show ?case
  proof (cases "gw = g")
    case True
    with b Cons.prems(3) have "for_loop (captaincy_entry_body a names em tc gw
                                 (points_map (json (live a gw)))) es st = Inr st1"
      by (simp add: captaincy_gw_body_def)
    from captaincy_entry_loop_complete [OF this Cons.prems(4,5)] have "r \<in> set st1" .
    with captaincy_gw_loop [OF l] show ?thesis by auto
  next
    case False
    with Cons.prems(2) have "gw \<in> set gs" by simp
    from Cons.IH [OF l this Cons.prems(3,4,5)] show ?thesis .
  qed
qed

lemma stored_week_after_chips:
  assumes "chip_aggregator a names em es = Inr ct" and "e \<in> set es"
  shows "stored_week (triple_captain_week_by_entry ct) e = triple_captain_week_of a e"
    and "stored_week (free_hit_by_entry ct) e = free_hit_week_of a e"
  using chip_loop_tables [OF assms(1) [unfolded chip_aggregator_def], of e] assms(2)
  by (simp_all add: stored_week_def dict_get_def)

lemma scenario_chip_entry:
  assumes hist: "status_code (history a e) = 200"
                "json (history a e) = Some [\<lparr>name = ''3xc'', event = w\<rparr>]"
      and w: "w \<noteq> 0"
      and pk: "status_code (picks_of a e w) = 200" "json (picks_of a e w) = Some ps"
              "first_captain ps = Some c" "c \<noteq> 0"
      and lv: "status_code (live a w) = 200"
              "dict_get (points_map (json (live a w))) c = Some pts"
      and nm: "dict_get names c = Some nm"
      and info: "dict_index em e = Inr info"
  shows "chip_entry a names em e =
           Inr ((initial_chip_dict info)
                  \<lparr>Triple_Captain := I w, Triple_Captain_Player := S nm, TC_Points := I pts\<rparr>,
                None, Some w)"
proof -
  have sc: "scan_chips a info e = ((initial_chip_dict info)\<lparr>Triple_Captain := I w\<rparr>, None, Some w)"
    using hist by (simp add: scan_chips_def)
  have rs: "resolve_triple_captain a names e (Some w) ((initial_chip_dict info)\<lparr>Triple_Captain := I w\<rparr>)
          = Inr ((initial_chip_dict info)
                  \<lparr>Triple_Captain := I w, Triple_Captain_Player := S nm, TC_Points := I pts\<rparr>)"
    using w pk lv nm
    by (simp add: resolve_triple_captain_def if_truthy_def name_or_dash_def points_or_dash_def)
  from info sc rs show ?thesis
    by (simp add: chip_entry_def bind_err_def)
qed


section \<open>The run on the small league\<close>

lemma demo_entry_map: "entry_map_of (league_standings demo_api) = demo_entry_map"
  by code_simp

lemma demo_entries: "dict_keys demo_entry_map = [100, 200]"
  by code_simp

lemma demo_load_catalog: "load_catalog (bootstrap demo_api) = Inr demo_catalog"
  by code_simp

lemma demo_chip_aggregator:
  "chip_aggregator demo_api (id_to_name demo_catalog) demo_entry_map [100, 200]
     = Inr demo_chip_tables"
  by code_simp

lemma demo_captaincy_aggregator:
  "captaincy_aggregator demo_api (id_to_name demo_catalog) demo_entry_map [100, 200]
     (triple_captain_week_by_entry demo_chip_tables) = Inr demo_captaincy"
  by code_simp

lemma demo_transfer_aggregator:
  "transfer_aggregator demo_api demo_catalog demo_entry_map [100, 200]
     (free_hit_by_entry demo_chip_tables) = Inr demo_transfers"
  by code_simp

lemma demo_run:
  "run demo_api =
     Inr \<lparr>df_transfers = demo_transfers, df_chips = chip_data demo_chip_tables,
          df_captaincy = demo_captaincy\<rparr>"
  by (simp add: run_def bind_err_def demo_entry_map demo_entries demo_load_catalog
        demo_chip_aggregator demo_captaincy_aggregator demo_transfer_aggregator)


section \<open>The claims\<close>

subsection \<open>C1: the triple-captain flag of a captaincy record\<close>

text \<open>
  Claim C1.  Whenever the captaincy aggregator emits a record for an entry and a gameweek,
  the record's ``Triple Captain Used'' field is \<^verbatim>\<open>"Yes"\<close> exactly when the gameweek is the
  one that the side table stores for the entry, and \<^verbatim>\<open>"No"\<close> in every other case (another
  gameweek stored, \<^verbatim>\<open>None\<close> stored, or no key for the entry).  Every record of the captaincy
  table is such a record, emitted for a league entry and a gameweek from 1 to 38.  The
  statement holds for any side table, so in particular for the one the chip aggregator
  built.
\<close>

theorem triple_captain_flag_correct:
  "(captaincy_entry a names em tbl gw pts e = Inr (Some r) \<longrightarrow>
      Gameweek_cp r = gw
    \<and> (Triple_Captain_Used r = ''Yes'' \<longleftrightarrow> stored_week tbl e = Some gw)
    \<and> (stored_week tbl e \<noteq> Some gw \<longrightarrow> Triple_Captain_Used r = ''No''))
 \<and> (captaincy_aggregator a names em es tbl = Inr cap \<longrightarrow>
      (\<forall>r \<in> set cap. \<exists>e \<in> set es.
          captaincy_entry a names em tbl (Gameweek_cp r)
            (points_map (json (live a (Gameweek_cp r)))) e = Inr (Some r)
        \<and> 1 \<le> Gameweek_cp r \<and> Gameweek_cp r \<le> 38
        \<and> (Triple_Captain_Used r = ''Yes'' \<longleftrightarrow> stored_week tbl e = Some (Gameweek_cp r))
        \<and> (stored_week tbl e \<noteq> Some (Gameweek_cp r) \<longrightarrow> Triple_Captain_Used r = ''No'')))"
proof (intro conjI impI ballI)
  assume "captaincy_entry a names em tbl gw pts e = Inr (Some r)"
  from captaincy_entry_Some(1,2) [OF this]
  show "Gameweek_cp r = gw"
    and "Triple_Captain_Used r = ''Yes'' \<longleftrightarrow> stored_week tbl e = Some gw"
    and "stored_week tbl e \<noteq> Some gw \<Longrightarrow> Triple_Captain_Used r = ''No''"
    by (auto simp: yes_no_def)
next
  fix r
  assume "captaincy_aggregator a names em es tbl = Inr cap" and "r \<in> set cap"
  with captaincy_gw_loop [of a names em es tbl "[1..38]" "[]" cap]
  obtain g e where g: "g \<in> set [1..38]" and e: "e \<in> set es"
    and row: "captaincy_entry a names em tbl g (points_map (json (live a g))) e = Inr (Some r)"
    by (auto simp: captaincy_aggregator_def)
  note f = captaincy_entry_Some(1,2) [OF row]
  from g f(1) have range: "1 \<le> Gameweek_cp r \<and> Gameweek_cp r \<le> 38" by simp
  from row f(1) have row': "captaincy_entry a names em tbl (Gameweek_cp r)
            (points_map (json (live a (Gameweek_cp r)))) e = Inr (Some r)"
    by simp
  from f have flag: "(Triple_Captain_Used r = ''Yes'' \<longleftrightarrow> stored_week tbl e = Some (Gameweek_cp r))
        \<and> (stored_week tbl e \<noteq> Some (Gameweek_cp r) \<longrightarrow> Triple_Captain_Used r = ''No'')"
    by (auto simp: yes_no_def)
  from e row' range flag
  show "\<exists>e \<in> set es.
          captaincy_entry a names em tbl (Gameweek_cp r)
            (points_map (json (live a (Gameweek_cp r)))) e = Inr (Some r)
        \<and> 1 \<le> Gameweek_cp r \<and> Gameweek_cp r \<le> 38
        \<and> (Triple_Captain_Used r = ''Yes'' \<longleftrightarrow> stored_week tbl e = Some (Gameweek_cp r))
        \<and> (stored_week tbl e \<noteq> Some (Gameweek_cp r) \<longrightarrow> Triple_Captain_Used r = ''No'')"
    by blast
qed

theorem triple_captain_flag_correct_witness:
  "Triple_Captain_Used (demo_captaincy ! 0) = ''Yes''
 \<and> stored_week (triple_captain_week_by_entry demo_chip_tables) 100
     = Some (Gameweek_cp (demo_captaincy ! 0))
 \<and> Triple_Captain_Used (demo_captaincy ! 1) = ''No''
 \<and> Gameweek_cp (demo_captaincy ! 1) = 16
 \<and> (\<exists>e \<in> set [100, 200].
       captaincy_entry demo_api (id_to_name demo_catalog) demo_entry_map
         (triple_captain_week_by_entry demo_chip_tables) (Gameweek_cp (demo_captaincy ! 2))
         (points_map (json (live demo_api (Gameweek_cp (demo_captaincy ! 2))))) e
       = Inr (Some (demo_captaincy ! 2)))"
proof -
  have r15: "captaincy_entry demo_api (id_to_name demo_catalog) demo_entry_map
               (triple_captain_week_by_entry demo_chip_tables) 15
               (points_map (json (live demo_api 15))) 100 = Inr (Some (demo_captaincy ! 0))"
    by code_simp
  have r16: "captaincy_entry demo_api (id_to_name demo_catalog) demo_entry_map
               (triple_captain_week_by_entry demo_chip_tables) 16
               (points_map (json (live demo_api 16))) 100 = Inr (Some (demo_captaincy ! 1))"
    by code_simp
  have sw: "stored_week (triple_captain_week_by_entry demo_chip_tables) 100 = Some 15"
    by (simp add: stored_week_def dict_get_def demo_chip_tables_def)
  have member: "demo_captaincy ! 2 \<in> set demo_captaincy"
    by (simp add: demo_captaincy_def)
  from triple_captain_flag_correct [where a = demo_api and names = "id_to_name demo_catalog"
         and em = demo_entry_map and tbl = "triple_captain_week_by_entry demo_chip_tables"
         and gw = 15 and pts = "points_map (json (live demo_api 15))" and e = 100
         and r = "demo_captaincy ! 0"] r15 sw
  have "Triple_Captain_Used (demo_captaincy ! 0) = ''Yes''"
    "stored_week (triple_captain_week_by_entry demo_chip_tables) 100
       = Some (Gameweek_cp (demo_captaincy ! 0))"
    by simp_all
  moreover
  from triple_captain_flag_correct [where a = demo_api and names = "id_to_name demo_catalog"
         and em = demo_entry_map and tbl = "triple_captain_week_by_entry demo_chip_tables"
         and gw = 16 and pts = "points_map (json (live demo_api 16))" and e = 100
         and r = "demo_captaincy ! 1"] r16 sw
  have "Triple_Captain_Used (demo_captaincy ! 1) = ''No''" "Gameweek_cp (demo_captaincy ! 1) = 16"
    by simp_all
  moreover
  from triple_captain_flag_correct [where a = demo_api and names = "id_to_name demo_catalog"
         and em = demo_entry_map and tbl = "triple_captain_week_by_entry demo_chip_tables"
         and es = "[100, 200]" and cap = demo_captaincy]
       demo_captaincy_aggregator member
  have "\<exists>e \<in> set [100, 200].
       captaincy_entry demo_api (id_to_name demo_catalog) demo_entry_map
         (triple_captain_week_by_entry demo_chip_tables) (Gameweek_cp (demo_captaincy ! 2))
         (points_map (json (live demo_api (Gameweek_cp (demo_captaincy ! 2))))) e
       = Inr (Some (demo_captaincy ! 2))"
    by blast
  ultimately show ?thesis by blast
qed


subsection \<open>C2: the order of the transfer records\<close>

text \<open>
  Claim C2.  The transfer records handed to the writer are in non-decreasing order of
  gameweek, and records of the same gameweek are in non-decreasing order of manager name
  (the lexicographic order on strings).  They are the collected records, sorted when there
  is at least one and left as they are (empty) otherwise.
\<close>

theorem transfers_sorted:
  assumes "transfer_aggregator a cat em es fh = Inr out"
  shows "(\<forall>i j. i < j \<and> j < length out \<longrightarrow>
            Gameweek_tr (out ! i) \<le> Gameweek_tr (out ! j)
          \<and> (Gameweek_tr (out ! i) = Gameweek_tr (out ! j) \<longrightarrow>
               Manager_Name_tr (out ! i) \<le> Manager_Name_tr (out ! j)))
       \<and> (\<exists>all. collect_transfers a cat em es fh = Inr all
               \<and> out = (if all \<noteq> [] then sort_values all else all)
               \<and> set out = set all \<and> length out = length all)"
proof -
  from transfer_aggregator_rows [OF assms] obtain all where
    all: "collect_transfers a cat em es fh = Inr all" "out = finish_transfers all"
    by blast
  have "Gameweek_tr (out ! i) \<le> Gameweek_tr (out ! j)
      \<and> (Gameweek_tr (out ! i) = Gameweek_tr (out ! j) \<longrightarrow>
           Manager_Name_tr (out ! i) \<le> Manager_Name_tr (out ! j))"
    if "i < j \<and> j < length out" for i j
    using finish_transfers_ordered [of i j all] that all(2) by simp
  moreover have "out = (if all \<noteq> [] then sort_values all else all)"
    "set out = set all" "length out = length all"
    using all(2) by (simp_all add: finish_transfers_def sort_values_def)
  ultimately show ?thesis using all(1) by blast
qed

theorem transfers_sorted_witness:
  "Gameweek_tr (demo_transfers ! 0) \<le> Gameweek_tr (demo_transfers ! 1)
 \<and> Manager_Name_tr (demo_transfers ! 0) \<le> Manager_Name_tr (demo_transfers ! 1)
 \<and> Gameweek_tr (demo_transfers ! 1) \<le> Gameweek_tr (demo_transfers ! 2)
 \<and> Manager_Name_tr (demo_transfers ! 0) = ''Al''
 \<and> Manager_Name_tr (demo_transfers ! 1) = ''Bea''"
proof -
  note w = transfers_sorted [OF demo_transfer_aggregator]
  have len: "(0::nat) < 1 \<and> 1 < length demo_transfers" "(1::nat) < 2 \<and> 2 < length demo_transfers"
    by (simp_all add: demo_transfers_def)
  have eq: "Gameweek_tr (demo_transfers ! 0) = Gameweek_tr (demo_transfers ! 1)"
    by (simp add: demo_transfers_def)
  from w len(1) eq have "Gameweek_tr (demo_transfers ! 0) \<le> Gameweek_tr (demo_transfers ! 1)"
    "Manager_Name_tr (demo_transfers ! 0) \<le> Manager_Name_tr (demo_transfers ! 1)"
    by blast+
  moreover from w len(2) have "Gameweek_tr (demo_transfers ! 1) \<le> Gameweek_tr (demo_transfers ! 2)"
    by blast
  moreover have "Manager_Name_tr (demo_transfers ! 0) = ''Al''"
    "Manager_Name_tr (demo_transfers ! 1) = ''Bea''"
    by (simp_all add: demo_transfers_def)
  ultimately show ?thesis by blast
qed


subsection \<open>C3: transfers of players outside the catalog\<close>

text \<open>
  Claim C3.  A transfer whose incoming or outgoing player id is not a key of the name table
  contributes no record and leaves the collected records as they are.  Every record of the
  final table comes from a transfer of some entry's log whose two player ids are both in
  the catalog, with the names the catalog gives them.
\<close>

theorem transfer_filter:
  "(\<not> dict_mem (element_in t) (id_to_name cat) \<or> \<not> dict_mem (element_out t) (id_to_name cat)
      \<longrightarrow> transfer_row cat em fh e t = Inr None
        \<and> transfer_body cat em fh e t rows = Inr rows)
 \<and> (transfer_aggregator a cat em es fh = Inr out \<longrightarrow>
      (\<forall>r \<in> set out. \<exists>e \<in> set es. \<exists>t \<in> set (json (transfers_of a e)).
          status_code (transfers_of a e) = 200
        \<and> transfer_row cat em fh e t = Inr (Some r)
        \<and> dict_get (id_to_name cat) (element_in t) = Some (Player_In r)
        \<and> dict_get (id_to_name cat) (element_out t) = Some (Player_Out r)))"
proof (intro conjI impI ballI)
  assume "\<not> dict_mem (element_in t) (id_to_name cat) \<or> \<not> dict_mem (element_out t) (id_to_name cat)"
  then have "transfer_row cat em fh e t = Inr None"
    by (auto simp: transfer_row_def)
  then show "transfer_row cat em fh e t = Inr None"
    and "transfer_body cat em fh e t rows = Inr rows"
    by (simp_all add: transfer_body_def bind_err_def)
next
  fix r
  assume agg: "transfer_aggregator a cat em es fh = Inr out" and r: "r \<in> set out"
  from transfer_aggregator_rows [OF agg] obtain all where
    all: "collect_transfers a cat em es fh = Inr all" "out = finish_transfers all"
    by blast
  from r all(2) have "r \<in> set all" by (simp add: set_finish_transfers)
  with transfer_entry_loop [OF all(1) [unfolded collect_transfers_def]]
  obtain e t where et: "e \<in> set es" "status_code (transfers_of a e) = 200"
    "t \<in> set (json (transfers_of a e))" "transfer_row cat em fh e t = Inr (Some r)"
    by auto
  from transfer_row_Some_fields(4,5) [OF et(4)] et
  show "\<exists>e \<in> set es. \<exists>t \<in> set (json (transfers_of a e)).
          status_code (transfers_of a e) = 200
        \<and> transfer_row cat em fh e t = Inr (Some r)
        \<and> dict_get (id_to_name cat) (element_in t) = Some (Player_In r)
        \<and> dict_get (id_to_name cat) (element_out t) = Some (Player_Out r)"
    by blast
qed

theorem transfer_filter_witness:
  "transfer_row demo_catalog demo_entry_map (free_hit_by_entry demo_chip_tables) 100
     \<lparr>element_in = 55, element_out = 7, event_tr = 4\<rparr> = Inr None
 \<and> transfer_body demo_catalog demo_entry_map (free_hit_by_entry demo_chip_tables) 100
     \<lparr>element_in = 55, element_out = 7, event_tr = 4\<rparr> demo_transfers = Inr demo_transfers
 \<and> (\<exists>e \<in> set [100, 200]. \<exists>t \<in> set (json (transfers_of demo_api e)).
       transfer_row demo_catalog demo_entry_map (free_hit_by_entry demo_chip_tables) e t
         = Inr (Some (demo_transfers ! 2))
     \<and> dict_get (id_to_name demo_catalog) (element_in t) = Some (Player_In (demo_transfers ! 2)))"
proof -
  note w = transfer_filter [of "\<lparr>element_in = 55, element_out = 7, event_tr = 4\<rparr>" demo_catalog
      demo_entry_map "free_hit_by_entry demo_chip_tables" 100 demo_transfers demo_api "[100, 200]"
      demo_transfers]
  have absent: "\<not> dict_mem (element_in \<lparr>element_in = 55, element_out = 7, event_tr = 4\<rparr>)
                    (id_to_name demo_catalog)"
    by (simp add: dict_mem_def demo_catalog_def)
  have member: "demo_transfers ! 2 \<in> set demo_transfers"
    by (simp add: demo_transfers_def)
  from w absent have "transfer_row demo_catalog demo_entry_map (free_hit_by_entry demo_chip_tables)
      100 \<lparr>element_in = 55, element_out = 7, event_tr = 4\<rparr> = Inr None"
    "transfer_body demo_catalog demo_entry_map (free_hit_by_entry demo_chip_tables) 100
     \<lparr>element_in = 55, element_out = 7, event_tr = 4\<rparr> demo_transfers = Inr demo_transfers"
    by blast+
  moreover from w demo_transfer_aggregator member
  have "\<exists>e \<in> set [100, 200]. \<exists>t \<in> set (json (transfers_of demo_api e)).
       transfer_row demo_catalog demo_entry_map (free_hit_by_entry demo_chip_tables) e t
         = Inr (Some (demo_transfers ! 2))
     \<and> dict_get (id_to_name demo_catalog) (element_in t) = Some (Player_In (demo_transfers ! 2))"
    by blast
  ultimately show ?thesis by blast
qed


subsection \<open>C4: the two wildcard fields\<close>

text \<open>
  Claim C4.  Processing a wildcard activation writes its gameweek into ``Wildcard 1'' when
  the gameweek is at most 20 and into ``Wildcard 2'' when it is 21 or more, and leaves the
  other wildcard field alone; gameweek 20 goes to ``Wildcard 1'', gameweek 21 to
  ``Wildcard 2''.
\<close>

theorem wildcard_classification:
  assumes "name c = ''wildcard''"
  shows "(event c \<le> 20 \<longrightarrow>
            Wildcard_1 (fst (chip_step (cd, fh, tc) c)) = I (event c)
          \<and> Wildcard_2 (fst (chip_step (cd, fh, tc) c)) = Wildcard_2 cd)
       \<and> (21 \<le> event c \<longrightarrow>
            Wildcard_2 (fst (chip_step (cd, fh, tc) c)) = I (event c)
          \<and> Wildcard_1 (fst (chip_step (cd, fh, tc) c)) = Wildcard_1 cd)"
  using assms by (simp add: Let_def)

theorem wildcard_classification_witness:
  "Wildcard_1 (fst (chip_step (initial_chip_dict \<lparr>manager_name = ''Bea'', team_name = ''Bea FC''\<rparr>,
                               None, None) \<lparr>name = ''wildcard'', event = 20\<rparr>)) = I 20
 \<and> Wildcard_2 (fst (chip_step (initial_chip_dict \<lparr>manager_name = ''Bea'', team_name = ''Bea FC''\<rparr>,
                               None, None) \<lparr>name = ''wildcard'', event = 21\<rparr>)) = I 21"
  using wildcard_classification [of "\<lparr>name = ''wildcard'', event = 20\<rparr>"
          "initial_chip_dict \<lparr>manager_name = ''Bea'', team_name = ''Bea FC''\<rparr>" None None]
        wildcard_classification [of "\<lparr>name = ''wildcard'', event = 21\<rparr>"
          "initial_chip_dict \<lparr>manager_name = ''Bea'', team_name = ''Bea FC''\<rparr>" None None]
  by simp


subsection \<open>C5: the threshold between the two wildcards\<close>

text \<open>
  Claim C5 puts an activation at gameweek 20 into ``Wildcard 2''.  The test of line 65 is
  \<^verbatim>\<open>gw <= 20\<close>: an activation at gameweek 20 is written to ``Wildcard 1'' and ``Wildcard 2''
  keeps the sentinel.
\<close>

theorem wildcard_at_20_counterexample:
  "Wildcard_1 (fst (chip_step (initial_chip_dict \<lparr>manager_name = ''Bea'', team_name = ''Bea FC''\<rparr>,
                               None, None) \<lparr>name = ''wildcard'', event = 20\<rparr>)) = I 20
 \<and> Wildcard_2 (fst (chip_step (initial_chip_dict \<lparr>manager_name = ''Bea'', team_name = ''Bea FC''\<rparr>,
                               None, None) \<lparr>name = ''wildcard'', event = 20\<rparr>)) \<noteq> I 20"
  by (simp add: initial_chip_dict_def dash_def)

text \<open>
  Claim C5 as amended: an activation at or before gameweek 20 is classified ``Wildcard 1''
  and an activation after gameweek 20 is classified ``Wildcard 2''.  In the chip record of
  an entry, ``Wildcard 1'' is the gameweek of the last wildcard activation of the history
  with gameweek at most 20, ``Wildcard 2'' that of the last one with gameweek above 20, and
  each is the sentinel when the history has no such activation.
\<close>

theorem wildcard_threshold_amended:
  "Wildcard_1 (fst (scan_chips a info e)) =
     (case last_event (\<lambda>c. name c = ''wildcard'' \<and> event c \<le> 20) (history_chips a e) of
        None \<Rightarrow> dash | Some g \<Rightarrow> I g)
 \<and> Wildcard_2 (fst (scan_chips a info e)) =
     (case last_event (\<lambda>c. name c = ''wildcard'' \<and> 20 < event c) (history_chips a e) of
        None \<Rightarrow> dash | Some g \<Rightarrow> I g)"
proof -
  obtain cd fh tc where sc: "scan_chips a info e = (cd, fh, tc)"
    by (cases "scan_chips a info e") auto
  from scan_fields [OF sc [unfolded scan_chips_eq]] sc show ?thesis
    by (simp add: initial_chip_dict_def split: option.splits)
qed

theorem wildcard_threshold_amended_witness:
  "Wildcard_1 (fst (scan_chips
      (demo_api\<lparr>history := \<lambda>e. \<lparr>status_code = 200,
                                 json = Some [\<lparr>name = ''wildcard'', event = 20\<rparr>,
                                              \<lparr>name = ''wildcard'', event = 21\<rparr>]\<rparr>\<rparr>)
      \<lparr>manager_name = ''Bea'', team_name = ''Bea FC''\<rparr> 100)) = I 20
 \<and> Wildcard_2 (fst (scan_chips
      (demo_api\<lparr>history := \<lambda>e. \<lparr>status_code = 200,
                                 json = Some [\<lparr>name = ''wildcard'', event = 20\<rparr>,
                                              \<lparr>name = ''wildcard'', event = 21\<rparr>]\<rparr>\<rparr>)
      \<lparr>manager_name = ''Bea'', team_name = ''Bea FC''\<rparr> 100)) = I 21"
  using wildcard_threshold_amended [of
      "demo_api\<lparr>history := \<lambda>e. \<lparr>status_code = 200,
                                 json = Some [\<lparr>name = ''wildcard'', event = 20\<rparr>,
                                              \<lparr>name = ''wildcard'', event = 21\<rparr>]\<rparr>\<rparr>"
      "\<lparr>manager_name = ''Bea'', team_name = ''Bea FC''\<rparr>" 100]
  by (simp add: history_chips_def last_event_def)


subsection \<open>C6: the scenario of entry 100\<close>

text \<open>
  Claim C6.  Entry 100's history lists the single chip \<^verbatim>\<open>{"name": "3xc", "event": 15}\<close>, its
  picks for gameweek 15 flag player 7 as captain, and the live scores of gameweek 15 give
  player 7 eighteen points.  Then the chip record of entry 100 has ``Triple Captain'' 15,
  ``Triple Captain Player'' the catalog name of player 7 and ``TC Points'' 18; the
  captaincy table holds the record of entry 100 for gameweek 15 with ``Triple Captain
  Used'' \<^verbatim>\<open>"Yes"\<close>, and every record emitted for entry 100 in another gameweek has
  \<^verbatim>\<open>"No"\<close>.
\<close>

theorem scenario_entry_100:
  assumes hist: "status_code (history a 100) = 200"
                "json (history a 100) = Some [\<lparr>name = ''3xc'', event = 15\<rparr>]"
      and pk: "status_code (picks_of a 100 15) = 200" "json (picks_of a 100 15) = Some ps"
              "first_captain ps = Some 7"
      and lv: "status_code (live a 15) = 200"
              "\<lparr>id_lv = 7, total_points = 18\<rparr> \<in> set (json (live a 15))"
              "\<forall>p \<in> set (json (live a 15)). id_lv p = 7 \<longrightarrow> total_points p = 18"
      and nm: "dict_get names 7 = Some nm"
      and ent: "100 \<in> set es"
      and chips: "chip_aggregator a names em es = Inr ct"
      and caps: "captaincy_aggregator a names em es (triple_captain_week_by_entry ct) = Inr cap"
  shows "(\<forall>i < length es. es ! i = 100 \<longrightarrow>
            Triple_Captain (chip_data ct ! i) = I 15
          \<and> Triple_Captain_Player (chip_data ct ! i) = S nm
          \<and> TC_Points (chip_data ct ! i) = I 18)
       \<and> (\<exists>r \<in> set cap.
            captaincy_entry a names em (triple_captain_week_by_entry ct) 15
              (points_map (json (live a 15))) 100 = Inr (Some r)
          \<and> Gameweek_cp r = 15 \<and> Captain r = nm \<and> Captain_Points r = I 18
          \<and> Triple_Captain_Used r = ''Yes'')
       \<and> (\<forall>gw pts r.
            gw \<noteq> 15
          \<and> captaincy_entry a names em (triple_captain_week_by_entry ct) gw pts 100 = Inr (Some r)
          \<longrightarrow> Triple_Captain_Used r = ''No'')"
proof -
  from ent obtain k where k: "k < length es" "es ! k = 100"
    by (auto simp: in_set_conv_nth)
  from chip_aggregator_rows(2) [OF chips k(1)] k(2) obtain cd0 fh0 tc0 where
    "chip_entry a names em 100 = Inr (cd0, fh0, tc0)" by auto
  from chip_entry_Inr_info [OF this] obtain info where info: "dict_index em 100 = Inr info"
    by blast
  have pts: "dict_get (points_map (json (live a 15))) 7 = Some 18"
    using points_map_get [OF lv(2)] lv(3) by simp
  have ce: "chip_entry a names em 100 =
           Inr ((initial_chip_dict info)
                  \<lparr>Triple_Captain := I 15, Triple_Captain_Player := S nm, TC_Points := I 18\<rparr>,
                None, Some 15)"
    by (rule scenario_chip_entry [OF hist _ pk _ lv(1) pts nm info]) simp_all
  have chip_rows: "Triple_Captain (chip_data ct ! i) = I 15
          \<and> Triple_Captain_Player (chip_data ct ! i) = S nm
          \<and> TC_Points (chip_data ct ! i) = I 18"
    if "i < length es" "es ! i = 100" for i
  proof -
    from chip_aggregator_rows(2) [OF chips that(1)] that(2) obtain fh tc where
      "chip_entry a names em 100 = Inr (chip_data ct ! i, fh, tc)" by auto
    with ce have "chip_data ct ! i = (initial_chip_dict info)
        \<lparr>Triple_Captain := I 15, Triple_Captain_Player := S nm, TC_Points := I 18\<rparr>"
      by simp
    then show ?thesis by simp
  qed
  have sw: "stored_week (triple_captain_week_by_entry ct) 100 = Some 15"
    using stored_week_after_chips(1) [OF chips ent] chip_entry_weeks [OF ce] by simp
  let ?r = "\<lparr>Manager_Name_cp = manager_name info, Team_Name_cp = team_name info,
              Gameweek_cp = 15, Captain = nm, Captain_Points = I 18,
              Triple_Captain_Used = ''Yes''\<rparr>"
  have row: "captaincy_entry a names em (triple_captain_week_by_entry ct) 15
               (points_map (json (live a 15))) 100 = Inr (Some ?r)"
    using pk info nm pts sw
    by (simp add: captaincy_entry_def if_truthy_def bind_err_def name_or_dash_def
          points_or_dash_def yes_no_def)
  have "?r \<in> set cap"
    by (rule captaincy_gw_loop_complete
          [OF caps [unfolded captaincy_aggregator_def] _ lv(1) ent row]) simp
  with row have cap_row: "\<exists>r \<in> set cap.
            captaincy_entry a names em (triple_captain_week_by_entry ct) 15
              (points_map (json (live a 15))) 100 = Inr (Some r)
          \<and> Gameweek_cp r = 15 \<and> Captain r = nm \<and> Captain_Points r = I 18
          \<and> Triple_Captain_Used r = ''Yes''"
    by (intro bexI [of _ ?r]) simp_all
  have others: "Triple_Captain_Used r = ''No''"
    if "gw \<noteq> 15 \<and> captaincy_entry a names em (triple_captain_week_by_entry ct) gw pts 100
          = Inr (Some r)" for gw pts r
    using captaincy_entry_Some(2) [of a names em "triple_captain_week_by_entry ct" gw pts 100 r]
      that sw by (simp add: yes_no_def)
  from chip_rows cap_row others show ?thesis by blast
qed

theorem scenario_entry_100_witness:
  "Triple_Captain (chip_data demo_chip_tables ! 0) = I 15
 \<and> Triple_Captain_Player (chip_data demo_chip_tables ! 0) = S ''Salah''
 \<and> TC_Points (chip_data demo_chip_tables ! 0) = I 18
 \<and> (\<exists>r \<in> set demo_captaincy. Gameweek_cp r = 15 \<and> Triple_Captain_Used r = ''Yes'')
 \<and> Triple_Captain_Used (demo_captaincy ! 1) = ''No''"
proof -
  have hist: "status_code (history demo_api 100) = 200"
             "json (history demo_api 100) = Some [\<lparr>name = ''3xc'', event = 15\<rparr>]"
    by (simp_all add: demo_api_def)
  have pk: "status_code (picks_of demo_api 100 15) = 200"
           "json (picks_of demo_api 100 15)
              = Some [\<lparr>element_pk = 9, is_captain = False\<rparr>, \<lparr>element_pk = 7, is_captain = True\<rparr>]"
           "first_captain [\<lparr>element_pk = 9, is_captain = False\<rparr>,
                           \<lparr>element_pk = 7, is_captain = True\<rparr>] = Some 7"
    by (simp_all add: demo_api_def first_captain_def)
  have lv: "status_code (live demo_api 15) = 200"
           "\<lparr>id_lv = 7, total_points = 18\<rparr> \<in> set (json (live demo_api 15))"
           "\<forall>p \<in> set (json (live demo_api 15)). id_lv p = 7 \<longrightarrow> total_points p = 18"
    by (simp_all add: demo_api_def)
  have nm: "dict_get (id_to_name demo_catalog) 7 = Some ''Salah''"
    by (simp add: dict_get_def demo_catalog_def)
  have ent: "(100::int) \<in> set [100, 200]" by simp
  note w = scenario_entry_100 [OF hist pk lv nm ent demo_chip_aggregator
             demo_captaincy_aggregator]
  have i0: "(0::nat) < length [100, 200::int]" "[100, 200::int] ! 0 = 100"
    by simp_all
  have row16: "(16::int) \<noteq> 15 \<and> captaincy_entry demo_api (id_to_name demo_catalog) demo_entry_map
      (triple_captain_week_by_entry demo_chip_tables) 16 (points_map (json (live demo_api 16))) 100
      = Inr (Some (demo_captaincy ! 1))"
    by code_simp
  from w i0 have "Triple_Captain (chip_data demo_chip_tables ! 0) = I 15
     \<and> Triple_Captain_Player (chip_data demo_chip_tables ! 0) = S ''Salah''
     \<and> TC_Points (chip_data demo_chip_tables ! 0) = I 18"
    by blast
  moreover from w have "\<exists>r \<in> set demo_captaincy. Gameweek_cp r = 15 \<and> Triple_Captain_Used r = ''Yes''"
    by blast
  moreover from w row16 have "Triple_Captain_Used (demo_captaincy ! 1) = ''No''"
    by blast
  ultimately show ?thesis by blast
qed


subsection \<open>C7: an entry whose history is unavailable\<close>

text \<open>
  Claim C7.  For a league entry whose history request does not return status 200, the body
  of the chip loop raises nothing: it appends exactly one record, whose seven chip fields
  are all the sentinel \<^verbatim>\<open>'-'\<close>, stores \<^verbatim>\<open>None\<close> in both side tables, and the loop goes on
  with the remaining entries.  When the aggregator completes, the chip table has one record
  per entry, in the order of the entries, and the record of each such entry is the
  all-sentinel one.
\<close>

theorem history_failure_sentinel:
  "(e \<in> set (dict_keys em) \<and> status_code (history a e) \<noteq> 200 \<longrightarrow>
      (\<exists>info. dict_index em e = Inr info
         \<and> chip_body a names em e st =
             Inr \<lparr>chip_data = chip_data st @ [initial_chip_dict info],
                  free_hit_by_entry = dict_set (free_hit_by_entry st) e None,
                  triple_captain_week_by_entry =
                    dict_set (triple_captain_week_by_entry st) e None\<rparr>
         \<and> for_loop (chip_body a names em) (e # rest) st =
             for_loop (chip_body a names em) rest
               \<lparr>chip_data = chip_data st @ [initial_chip_dict info],
                free_hit_by_entry = dict_set (free_hit_by_entry st) e None,
                triple_captain_week_by_entry =
                  dict_set (triple_captain_week_by_entry st) e None\<rparr>
         \<and> Wildcard_1 (initial_chip_dict info) = S ''-''
         \<and> Wildcard_2 (initial_chip_dict info) = S ''-''
         \<and> Free_Hit (initial_chip_dict info) = S ''-''
         \<and> Bench_Boost (initial_chip_dict info) = S ''-''
         \<and> Triple_Captain (initial_chip_dict info) = S ''-''
         \<and> Triple_Captain_Player (initial_chip_dict info) = S ''-''
         \<and> TC_Points (initial_chip_dict info) = S ''-''))
 \<and> (chip_aggregator a names em es = Inr ct \<longrightarrow>
      length (chip_data ct) = length es
    \<and> (\<forall>i < length es. status_code (history a (es ! i)) \<noteq> 200 \<longrightarrow>
          (\<exists>info. dict_index em (es ! i) = Inr info
                 \<and> chip_data ct ! i = initial_chip_dict info)))"
proof (intro conjI impI)
  assume "e \<in> set (dict_keys em) \<and> status_code (history a e) \<noteq> 200"
  then have k: "e \<in> set (dict_keys em)" and u: "status_code (history a e) \<noteq> 200"
    by simp_all
  from k obtain info where info: "dict_index em e = Inr info"
    using dict_index_Inr_iff [of em e] by blast
  from chip_entry_unavailable [OF info u]
  have "chip_body a names em e st =
          Inr \<lparr>chip_data = chip_data st @ [initial_chip_dict info],
               free_hit_by_entry = dict_set (free_hit_by_entry st) e None,
               triple_captain_week_by_entry =
                 dict_set (triple_captain_week_by_entry st) e None\<rparr>"
    by (simp add: chip_body_def)
  with info show "\<exists>info. dict_index em e = Inr info
         \<and> chip_body a names em e st =
             Inr \<lparr>chip_data = chip_data st @ [initial_chip_dict info],
                  free_hit_by_entry = dict_set (free_hit_by_entry st) e None,
                  triple_captain_week_by_entry =
                    dict_set (triple_captain_week_by_entry st) e None\<rparr>
         \<and> for_loop (chip_body a names em) (e # rest) st =
             for_loop (chip_body a names em) rest
               \<lparr>chip_data = chip_data st @ [initial_chip_dict info],
                free_hit_by_entry = dict_set (free_hit_by_entry st) e None,
                triple_captain_week_by_entry =
                  dict_set (triple_captain_week_by_entry st) e None\<rparr>
         \<and> Wildcard_1 (initial_chip_dict info) = S ''-''
         \<and> Wildcard_2 (initial_chip_dict info) = S ''-''
         \<and> Free_Hit (initial_chip_dict info) = S ''-''
         \<and> Bench_Boost (initial_chip_dict info) = S ''-''
         \<and> Triple_Captain (initial_chip_dict info) = S ''-''
         \<and> Triple_Captain_Player (initial_chip_dict info) = S ''-''
         \<and> TC_Points (initial_chip_dict info) = S ''-''"
    by (auto simp: initial_chip_dict_def dash_def)
next
  assume agg: "chip_aggregator a names em es = Inr ct"
  then show "length (chip_data ct) = length es"
    by (rule chip_aggregator_rows(1))
  show "\<forall>i < length es. status_code (history a (es ! i)) \<noteq> 200 \<longrightarrow>
          (\<exists>info. dict_index em (es ! i) = Inr info \<and> chip_data ct ! i = initial_chip_dict info)"
  proof (intro allI impI)
    fix i assume i: "i < length es" and u: "status_code (history a (es ! i)) \<noteq> 200"
    from chip_aggregator_rows(2) [OF agg i] obtain fh tc where
      ce: "chip_entry a names em (es ! i) = Inr (chip_data ct ! i, fh, tc)" by blast
    from chip_entry_Inr_info [OF ce] obtain info where info: "dict_index em (es ! i) = Inr info"
      by blast
    from chip_entry_unavailable [OF info u] ce have "chip_data ct ! i = initial_chip_dict info"
      by simp
    with info show "\<exists>info. dict_index em (es ! i) = Inr info
                      \<and> chip_data ct ! i = initial_chip_dict info"
      by blast
  qed
qed

theorem history_failure_sentinel_witness:
  "chip_body demo_api (id_to_name demo_catalog) demo_entry_map 200
     \<lparr>chip_data = [], free_hit_by_entry = [], triple_captain_week_by_entry = []\<rparr>
   = Inr \<lparr>chip_data = [initial_chip_dict \<lparr>manager_name = ''Al'', team_name = ''Al XI''\<rparr>],
          free_hit_by_entry = [(200, None)],
          triple_captain_week_by_entry = [(200, None)]\<rparr>
 \<and> length (chip_data demo_chip_tables) = 2
 \<and> chip_data demo_chip_tables ! 1
     = initial_chip_dict \<lparr>manager_name = ''Al'', team_name = ''Al XI''\<rparr>"
proof -
  have k: "200 \<in> set (dict_keys demo_entry_map)"
    by (simp add: dict_keys_def demo_entry_map_def)
  have u: "status_code (history demo_api 200) \<noteq> 200"
    by (simp add: demo_api_def)
  have i: "dict_index demo_entry_map 200 = Inr \<lparr>manager_name = ''Al'', team_name = ''Al XI''\<rparr>"
    by (simp add: dict_index_def demo_entry_map_def)
  have pos: "(1::nat) < length [100, 200::int]" "[100, 200::int] ! 1 = 200"
    by simp_all
  note w = history_failure_sentinel [where e = 200 and em = demo_entry_map and a = demo_api
      and names = "id_to_name demo_catalog" and es = "[100, 200]" and ct = demo_chip_tables
      and st = "\<lparr>chip_data = [], free_hit_by_entry = [], triple_captain_week_by_entry = []\<rparr>"]
  from w k u i have "chip_body demo_api (id_to_name demo_catalog) demo_entry_map 200
     \<lparr>chip_data = [], free_hit_by_entry = [], triple_captain_week_by_entry = []\<rparr>
   = Inr \<lparr>chip_data = [initial_chip_dict \<lparr>manager_name = ''Al'', team_name = ''Al XI''\<rparr>],
          free_hit_by_entry = [(200, None)],
          triple_captain_week_by_entry = [(200, None)]\<rparr>"
    by (auto simp: dict_set_def)
  moreover from w demo_chip_aggregator have "length (chip_data demo_chip_tables) = 2"
    by simp
  moreover from w demo_chip_aggregator pos u
  have "\<exists>info. dict_index demo_entry_map 200 = Inr info
          \<and> chip_data demo_chip_tables ! 1 = initial_chip_dict info"
    by (metis (no_types, lifting))
  with i have "chip_data demo_chip_tables ! 1
     = initial_chip_dict \<lparr>manager_name = ''Al'', team_name = ''Al XI''\<rparr>"
    by auto
  ultimately show ?thesis by blast
qed


subsection \<open>C8: what the captaincy aggregator skips\<close>

text \<open>
  Claim C8.  A gameweek whose live scores are unavailable adds no record and the loop over
  the gameweeks goes on; no record of the captaincy table belongs to such a gameweek.  An
  entry whose picks are unavailable for a gameweek, or whose picks flag no captain, adds
  no record and raises nothing, and the loop goes on with the remaining entries of the
  gameweek.
\<close>

theorem captaincy_skips:
  "(status_code (live a gw) \<noteq> 200 \<longrightarrow>
      captaincy_gw_body a names em es tbl gw st = Inr st
    \<and> for_loop (captaincy_gw_body a names em es tbl) (gw # gws) st =
        for_loop (captaincy_gw_body a names em es tbl) gws st)
 \<and> (captaincy_aggregator a names em es tbl = Inr cap \<longrightarrow>
      (\<forall>r \<in> set cap. status_code (live a (Gameweek_cp r)) = 200))
 \<and> (status_code (picks_of a e gw) \<noteq> 200
      \<or> first_captain (case json (picks_of a e gw) of None \<Rightarrow> [] | Some ps \<Rightarrow> ps) = None
    \<longrightarrow> captaincy_entry a names em tbl gw pts e = Inr None
      \<and> captaincy_entry_body a names em tbl gw pts e st = Inr st
      \<and> for_loop (captaincy_entry_body a names em tbl gw pts) (e # rest) st =
          for_loop (captaincy_entry_body a names em tbl gw pts) rest st)"
proof (intro conjI impI ballI)
  assume "status_code (live a gw) \<noteq> 200"
  then show g: "captaincy_gw_body a names em es tbl gw st = Inr st"
    by (simp add: captaincy_gw_body_def)
  then show "for_loop (captaincy_gw_body a names em es tbl) (gw # gws) st =
        for_loop (captaincy_gw_body a names em es tbl) gws st"
    by simp
next
  fix r
  assume "captaincy_aggregator a names em es tbl = Inr cap" and "r \<in> set cap"
  with captaincy_gw_loop [of a names em es tbl "[1..38]" "[]" cap]
  obtain g e where "status_code (live a g) = 200"
    "captaincy_entry a names em tbl g (points_map (json (live a g))) e = Inr (Some r)"
    by (auto simp: captaincy_aggregator_def)
  with captaincy_entry_Some(1) [of a names em tbl g _ e r]
  show "status_code (live a (Gameweek_cp r)) = 200" by simp
next
  assume "status_code (picks_of a e gw) \<noteq> 200
      \<or> first_captain (case json (picks_of a e gw) of None \<Rightarrow> [] | Some ps \<Rightarrow> ps) = None"
  then show n: "captaincy_entry a names em tbl gw pts e = Inr None"
    by (auto simp: captaincy_entry_def Let_def)
  then show b: "captaincy_entry_body a names em tbl gw pts e st = Inr st"
    by (simp add: captaincy_entry_body_def bind_err_def)
  then show "for_loop (captaincy_entry_body a names em tbl gw pts) (e # rest) st =
          for_loop (captaincy_entry_body a names em tbl gw pts) rest st"
    by simp
qed

theorem captaincy_skips_witness:
  "captaincy_gw_body demo_api (id_to_name demo_catalog) demo_entry_map [100, 200]
     (triple_captain_week_by_entry demo_chip_tables) 14 [] = Inr []
 \<and> status_code (live demo_api (Gameweek_cp (demo_captaincy ! 0))) = 200
 \<and> captaincy_entry demo_api (id_to_name demo_catalog) demo_entry_map
     (triple_captain_week_by_entry demo_chip_tables) 15
     (points_map (json (live demo_api 15))) 200 = Inr None
 \<and> captaincy_entry_body demo_api (id_to_name demo_catalog) demo_entry_map
     (triple_captain_week_by_entry demo_chip_tables) 17
     (points_map (json (live demo_api 17))) 100 demo_captaincy = Inr demo_captaincy"
proof -
  have l14: "status_code (live demo_api 14) \<noteq> 200"
    by (simp add: demo_api_def)
  have no_captain: "first_captain (case json (picks_of demo_api 200 15) of None \<Rightarrow> []
                                   | Some ps \<Rightarrow> ps) = None"
    by (simp add: demo_api_def first_captain_def)
  have no_picks: "status_code (picks_of demo_api 100 17) \<noteq> 200"
    by (simp add: demo_api_def)
  have member: "demo_captaincy ! 0 \<in> set demo_captaincy"
    by (simp add: demo_captaincy_def)
  from captaincy_skips [where a = demo_api and gw = 14 and names = "id_to_name demo_catalog"
         and em = demo_entry_map and es = "[100, 200]"
         and tbl = "triple_captain_week_by_entry demo_chip_tables" and st = "[]"
         and cap = demo_captaincy] l14 demo_captaincy_aggregator member
  have "captaincy_gw_body demo_api (id_to_name demo_catalog) demo_entry_map [100, 200]
     (triple_captain_week_by_entry demo_chip_tables) 14 [] = Inr []"
    "status_code (live demo_api (Gameweek_cp (demo_captaincy ! 0))) = 200"
    by blast+
  moreover
  from captaincy_skips [where a = demo_api and gw = 15 and e = 200
         and names = "id_to_name demo_catalog" and em = demo_entry_map
         and tbl = "triple_captain_week_by_entry demo_chip_tables"
         and pts = "points_map (json (live demo_api 15))"] no_captain
  have "captaincy_entry demo_api (id_to_name demo_catalog) demo_entry_map
     (triple_captain_week_by_entry demo_chip_tables) 15
     (points_map (json (live demo_api 15))) 200 = Inr None"
    by blast
  moreover
  from captaincy_skips [where a = demo_api and gw = 17 and e = 100
         and names = "id_to_name demo_catalog" and em = demo_entry_map
         and tbl = "triple_captain_week_by_entry demo_chip_tables" and st = demo_captaincy
         and pts = "points_map (json (live demo_api 17))"] no_picks
  have "captaincy_entry_body demo_api (id_to_name demo_catalog) demo_entry_map
     (triple_captain_week_by_entry demo_chip_tables) 17
     (points_map (json (live demo_api 17))) 100 demo_captaincy = Inr demo_captaincy"
    by blast
  ultimately show ?thesis by blast
qed


subsection \<open>C9: the two side tables\<close>

text \<open>
  Claim C9.  When the chip aggregator completes, the keys of both side tables are exactly
  the league entries.  The value stored for an entry is the gameweek of its last free-hit
  (respectively triple-captain) activation, and \<^verbatim>\<open>None\<close> when the history was unavailable or
  lists no such chip.  The two flags are computed by a lookup that cannot raise, and every
  record of an entry without a stored gameweek carries the flag \<^verbatim>\<open>"No"\<close>.
\<close>

theorem side_tables_cover_entries:
  assumes "chip_aggregator a names em es = Inr ct"
  shows "set (dict_keys (free_hit_by_entry ct)) = set es
       \<and> set (dict_keys (triple_captain_week_by_entry ct)) = set es
       \<and> (\<forall>e \<in> set es.
            dict_get (free_hit_by_entry ct) e = Some (free_hit_week_of a e)
          \<and> dict_get (triple_captain_week_by_entry ct) e = Some (triple_captain_week_of a e)
          \<and> (status_code (history a e) \<noteq> 200 \<longrightarrow>
                dict_get (free_hit_by_entry ct) e = Some None
              \<and> dict_get (triple_captain_week_by_entry ct) e = Some None)
          \<and> ((\<forall>c \<in> set (history_chips a e). name c \<noteq> ''freehit'') \<longrightarrow>
                dict_get (free_hit_by_entry ct) e = Some None)
          \<and> ((\<forall>c \<in> set (history_chips a e). name c \<noteq> ''3xc'') \<longrightarrow>
                dict_get (triple_captain_week_by_entry ct) e = Some None))
       \<and> (\<forall>e gw pts r.
            stored_week (triple_captain_week_by_entry ct) e = None
          \<and> captaincy_entry a names em (triple_captain_week_by_entry ct) gw pts e = Inr (Some r)
          \<longrightarrow> Triple_Captain_Used r = ''No'')
       \<and> (\<forall>cat e t r.
            stored_week (free_hit_by_entry ct) e = None
          \<and> transfer_row cat em (free_hit_by_entry ct) e t = Inr (Some r)
          \<longrightarrow> Free_Hit_Active r = ''No'')"
proof -
  note t = chip_loop_tables [OF assms [unfolded chip_aggregator_def]]
  have keys: "set (dict_keys (free_hit_by_entry ct)) = set es"
    "set (dict_keys (triple_captain_week_by_entry ct)) = set es"
    using t [of 0] by (simp_all add: dict_keys_def)
  have vals: "dict_get (free_hit_by_entry ct) e = Some (free_hit_week_of a e)"
    "dict_get (triple_captain_week_by_entry ct) e = Some (triple_captain_week_of a e)"
    if "e \<in> set es" for e
    using t [of e] that by (simp_all add: dict_get_def)
  have none_unavailable:
    "free_hit_week_of a e = None \<and> triple_captain_week_of a e = None"
    if "status_code (history a e) \<noteq> 200" for e
    using that
    by (simp add: free_hit_week_of_def triple_captain_week_of_def history_chips_unavailable
          last_event_def)
  have none_fh: "free_hit_week_of a e = None"
    if "\<forall>c \<in> set (history_chips a e). name c \<noteq> ''freehit''" for e
    using that by (simp add: free_hit_week_of_def last_event_None_iff)
  have none_tc: "triple_captain_week_of a e = None"
    if "\<forall>c \<in> set (history_chips a e). name c \<noteq> ''3xc''" for e
    using that by (simp add: triple_captain_week_of_def last_event_None_iff)
  have cap: "Triple_Captain_Used r = ''No''"
    if "stored_week (triple_captain_week_by_entry ct) e = None"
       "captaincy_entry a names em (triple_captain_week_by_entry ct) gw pts e = Inr (Some r)"
    for e gw pts r
    using captaincy_entry_Some(2) [OF that(2)] that(1) by (simp add: yes_no_def)
  have tr: "Free_Hit_Active r = ''No''"
    if "stored_week (free_hit_by_entry ct) e = None"
       "transfer_row cat em (free_hit_by_entry ct) e t = Inr (Some r)"
    for cat e t r
    using transfer_row_Some_fields(6) [OF that(2)] that(1) by (simp add: yes_no_def)
  show ?thesis
    using keys vals none_unavailable none_fh none_tc cap tr
    by (intro conjI ballI allI impI) (simp_all, blast+)
qed

theorem side_tables_cover_entries_witness:
  "set (dict_keys (free_hit_by_entry demo_chip_tables)) = {100, 200}
 \<and> set (dict_keys (triple_captain_week_by_entry demo_chip_tables)) = {100, 200}
 \<and> dict_get (triple_captain_week_by_entry demo_chip_tables) 100 = Some (Some 15)
 \<and> dict_get (free_hit_by_entry demo_chip_tables) 100 = Some None
 \<and> dict_get (triple_captain_week_by_entry demo_chip_tables) 200 = Some None
 \<and> dict_get (free_hit_by_entry demo_chip_tables) 200 = Some None
 \<and> Triple_Captain_Used (demo_captaincy ! 2) = ''No''"
proof -
  note w = side_tables_cover_entries [OF demo_chip_aggregator]
  have u: "status_code (history demo_api 200) \<noteq> 200"
    by (simp add: demo_api_def)
  have nf: "\<forall>c \<in> set (history_chips demo_api 100). name c \<noteq> ''freehit''"
    by (simp add: history_chips_def demo_api_def)
  have tc: "triple_captain_week_of demo_api 100 = Some 15"
    by (simp add: triple_captain_week_of_def history_chips_def last_event_def demo_api_def)
  have sw: "stored_week (triple_captain_week_by_entry demo_chip_tables) 200 = None"
    by (simp add: stored_week_def dict_get_def demo_chip_tables_def)
  have row: "captaincy_entry demo_api (id_to_name demo_catalog) demo_entry_map
               (triple_captain_week_by_entry demo_chip_tables) 16
               (points_map (json (live demo_api 16))) 200 = Inr (Some (demo_captaincy ! 2))"
    by code_simp
  have m: "(100::int) \<in> set [100, 200]" "(200::int) \<in> set [100, 200]"
    by simp_all
  from w have "set (dict_keys (free_hit_by_entry demo_chip_tables)) = set [100, 200]"
    "set (dict_keys (triple_captain_week_by_entry demo_chip_tables)) = set [100, 200]"
    by blast+
  then have "set (dict_keys (free_hit_by_entry demo_chip_tables)) = {100, 200}"
    "set (dict_keys (triple_captain_week_by_entry demo_chip_tables)) = {100, 200}"
    by simp_all
  moreover from w m(1) have "dict_get (triple_captain_week_by_entry demo_chip_tables) 100
      = Some (triple_captain_week_of demo_api 100)"
    by blast
  with tc have "dict_get (triple_captain_week_by_entry demo_chip_tables) 100 = Some (Some 15)"
    by simp
  moreover from w m(1) nf have "dict_get (free_hit_by_entry demo_chip_tables) 100 = Some None"
    by blast
  moreover from w m(2) u have "dict_get (triple_captain_week_by_entry demo_chip_tables) 200 = Some None"
    "dict_get (free_hit_by_entry demo_chip_tables) 200 = Some None"
    by blast+
  moreover from w sw row have "Triple_Captain_Used (demo_captaincy ! 2) = ''No''"
    by blast
  ultimately show ?thesis by blast
qed


subsection \<open>C10: the three catalog tables\<close>

text \<open>
  Claim C10.  When the catalog loads, the name, team and position tables have the same
  keys (in the same order).  Hence for a player id that passes the membership test on the
  name table, subscripting any of the three tables succeeds, and a transfer of a league
  entry whose two player ids pass the test always yields a record: no \<^verbatim>\<open>KeyError\<close> is
  raised.
\<close>

theorem catalog_tables_same_keys:
  assumes "load_catalog b = Inr cat"
  shows "dict_keys (id_to_team cat) = dict_keys (id_to_name cat)
       \<and> dict_keys (id_to_position cat) = dict_keys (id_to_name cat)
       \<and> (\<forall>i. dict_mem i (id_to_name cat) \<longrightarrow>
            (\<exists>n tm p. dict_index (id_to_name cat) i = Inr n
                     \<and> dict_index (id_to_team cat) i = Inr tm
                     \<and> dict_index (id_to_position cat) i = Inr p))
       \<and> (\<forall>em fh e t info.
            dict_mem (element_in t) (id_to_name cat) \<and> dict_mem (element_out t) (id_to_name cat)
          \<and> dict_index em e = Inr info
          \<longrightarrow> (\<exists>r. transfer_row cat em fh e t = Inr (Some r)))"
proof -
  note k = load_catalog_keys [OF assms]
  have idx: "\<exists>n tm p. dict_index (id_to_name cat) i = Inr n
                     \<and> dict_index (id_to_team cat) i = Inr tm
                     \<and> dict_index (id_to_position cat) i = Inr p"
    if "dict_mem i (id_to_name cat)" for i
  proof -
    from that k have "dict_mem i (id_to_team cat)" "dict_mem i (id_to_position cat)"
      by (simp_all add: dict_mem_keys)
    with that show ?thesis by (meson dict_index_mem)
  qed
  have row: "\<exists>r. transfer_row cat em fh e t = Inr (Some r)"
    if "dict_mem (element_in t) (id_to_name cat) \<and> dict_mem (element_out t) (id_to_name cat)
        \<and> dict_index em e = Inr info" for em fh e t info
    using transfer_row_Some [OF k, of t em e info fh] that by simp
  from k idx row show ?thesis by blast
qed

theorem catalog_tables_same_keys_witness:
  "dict_keys (id_to_team demo_catalog) = dict_keys (id_to_name demo_catalog)
 \<and> dict_keys (id_to_position demo_catalog) = dict_keys (id_to_name demo_catalog)
 \<and> (\<exists>r. transfer_row demo_catalog demo_entry_map (free_hit_by_entry demo_chip_tables) 100
           \<lparr>element_in = 9, element_out = 7, event_tr = 16\<rparr> = Inr (Some r))"
proof -
  note w = catalog_tables_same_keys [OF demo_load_catalog]
  have m: "dict_mem (element_in \<lparr>element_in = 9, element_out = 7, event_tr = 16\<rparr>)
             (id_to_name demo_catalog)"
          "dict_mem (element_out \<lparr>element_in = 9, element_out = 7, event_tr = 16\<rparr>)
             (id_to_name demo_catalog)"
    by (simp_all add: dict_mem_def demo_catalog_def)
  have i: "dict_index demo_entry_map 100 = Inr \<lparr>manager_name = ''Bea'', team_name = ''Bea FC''\<rparr>"
    by (simp add: dict_index_def demo_entry_map_def)
  from w m i have "\<exists>r. transfer_row demo_catalog demo_entry_map (free_hit_by_entry demo_chip_tables)
           100 \<lparr>element_in = 9, element_out = 7, event_tr = 16\<rparr> = Inr (Some r)"
    by blast
  with w show ?thesis by blast
qed

end
